theory Spec2Isabelle
  imports Main "HOL-Library.Word" "HOL-Library.AList" "HOL-Library.Sublist"
begin

section \<open>JavaScript strings\<close>

text \<open>
  A JavaScript string is a sequence of 16-bit code units. The lessons the application
  analyses are Hebrew, so the model keeps all 65536 code units and not only ASCII.
  String literals of the source are written \<open>js ''...''\<close>.
\<close>

type_synonym jschar = "16 word"
type_synonym jsstring = "jschar list"

definition js :: "string \<Rightarrow> jsstring" where
  "js s = map of_char s"

text \<open>
  The truthiness of a value of type \<open>string | undefined\<close>: \<open>undefined\<close> (here
  \<open>None\<close>) and the empty string are falsy. \<open>truthy v\<close> is the string when \<open>v\<close> is
  truthy.
\<close>

definition truthy :: "jsstring option \<Rightarrow> jsstring option" where
  "truthy v = (case v of None \<Rightarrow> None | Some s \<Rightarrow> if s = [] then None else Some s)"

text \<open>\<open>a || b\<close> on such a value and a string.\<close>

definition or_else :: "jsstring option \<Rightarrow> jsstring \<Rightarrow> jsstring" where
  "or_else v d = (case truthy v of None \<Rightarrow> d | Some s \<Rightarrow> s)"

section \<open>JSON, as \<open>JSON.stringify\<close> and \<open>JSON.parse\<close> of the runtime\<close>

text \<open>
  The library is persisted with \<open>JSON.stringify\<close> and read back with \<open>JSON.parse\<close>
  (index.tsx, lines 77-99). Both are functions of the JavaScript runtime; they are
  modelled after ECMA-262 (\<open>SerializeJSONProperty\<close>, \<open>QuoteJSONString\<close>, the JSON
  grammar). A number is an IEEE double in JavaScript; it is kept as its lexeme, since no
  field of a library record is a number.
\<close>

datatype json =
    JNull
  | JBool bool
  | JNumber jsstring
  | JString jsstring
  | JArray "json list"
  | JObject "(jsstring \<times> json) list"

subsection \<open>\<open>JSON.stringify\<close>\<close>

definition is_lead :: "jschar \<Rightarrow> bool" where
  "is_lead c = (0xD800 \<le> c \<and> c \<le> 0xDBFF)"

definition is_trail :: "jschar \<Rightarrow> bool" where
  "is_trail c = (0xDC00 \<le> c \<and> c \<le> 0xDFFF)"

definition hex_digit :: "nat \<Rightarrow> jschar" where
  "hex_digit n = (if n < 10 then of_nat (0x30 + n) else of_nat (0x61 + (n - 10)))"

text \<open>\<open>UnicodeEscape\<close>: a backslash, \<open>u\<close> and four lowercase hexadecimal digits.\<close>

definition UnicodeEscape :: "jschar \<Rightarrow> jsstring" where
  "UnicodeEscape c =
     [0x5C, 0x75, hex_digit (unat c div 4096 mod 16), hex_digit (unat c div 256 mod 16),
      hex_digit (unat c div 16 mod 16), hex_digit (unat c mod 16)]"

text \<open>
  One code point that is a single code unit: the two-character escapes of
  \<open>QuoteJSONString\<close>'s table, \<open>UnicodeEscape\<close> for the other control characters and
  for a surrogate that stands alone, the code unit itself otherwise.
\<close>

definition quote_unit :: "jschar \<Rightarrow> jsstring" where
  "quote_unit c =
     (if c = 0x08 then [0x5C, 0x62]
      else if c = 0x09 then [0x5C, 0x74]
      else if c = 0x0A then [0x5C, 0x6E]
      else if c = 0x0C then [0x5C, 0x66]
      else if c = 0x0D then [0x5C, 0x72]
      else if c = 0x22 then [0x5C, 0x22]
      else if c = 0x5C then [0x5C, 0x5C]
      else if c < 0x20 \<or> is_lead c \<or> is_trail c then UnicodeEscape c
      else [c])"

text \<open>
  The string is read code point by code point: a lead surrogate followed by a trail
  surrogate is one code point and is copied as it is.
\<close>

fun quote_units :: "jsstring \<Rightarrow> jsstring" where
  "quote_units [] = []"
| "quote_units [c] = quote_unit c"
| "quote_units (c # d # cs) =
     (if is_lead c \<and> is_trail d then c # d # quote_units cs
      else quote_unit c @ quote_units (d # cs))"

definition QuoteJSONString :: "jsstring \<Rightarrow> jsstring" where
  "QuoteJSONString s = 0x22 # quote_units s @ [0x22]"

fun intercalate :: "jsstring \<Rightarrow> jsstring list \<Rightarrow> jsstring" where
  "intercalate sep [] = []"
| "intercalate sep [x] = x"
| "intercalate sep (x # y # ys) = x @ sep @ intercalate sep (y # ys)"

text \<open>\<open>JSON.stringify(value)\<close> with no replacer and no indentation.\<close>

fun JSON_stringify :: "json \<Rightarrow> jsstring" where
  "JSON_stringify JNull = js ''null''"
| "JSON_stringify (JBool b) = (if b then js ''true'' else js ''false'')"
| "JSON_stringify (JNumber n) = n"
| "JSON_stringify (JString s) = QuoteJSONString s"
| "JSON_stringify (JArray vs) = 0x5B # intercalate [0x2C] (map JSON_stringify vs) @ [0x5D]"
| "JSON_stringify (JObject kvs) =
     0x7B # intercalate [0x2C]
       (map (\<lambda>kv. QuoteJSONString (fst kv) @ 0x3A # JSON_stringify (snd kv)) kvs) @ [0x7D]"

subsection \<open>\<open>JSON.parse\<close>\<close>

definition hex_value :: "jschar \<Rightarrow> nat option" where
  "hex_value c =
     (if 0x30 \<le> c \<and> c \<le> 0x39 then Some (unat c - 0x30)
      else if 0x61 \<le> c \<and> c \<le> 0x66 then Some (unat c - 0x61 + 10)
      else if 0x41 \<le> c \<and> c \<le> 0x46 then Some (unat c - 0x41 + 10)
      else None)"

definition hex4 :: "jschar \<Rightarrow> jschar \<Rightarrow> jschar \<Rightarrow> jschar \<Rightarrow> jschar option" where
  "hex4 a b c d =
     (case (hex_value a, hex_value b, hex_value c, hex_value d) of
        (Some p, Some q, Some r, Some s) \<Rightarrow> Some (of_nat (4096 * p + 256 * q + 16 * r + s))
      | _ \<Rightarrow> None)"

text \<open>The character after a backslash, \<open>u\<close> apart.\<close>

definition simple_escape :: "jschar \<Rightarrow> jschar option" where
  "simple_escape e =
     (if e = 0x22 then Some 0x22
      else if e = 0x2F then Some 0x2F
      else if e = 0x5C then Some 0x5C
      else if e = 0x62 then Some 0x08
      else if e = 0x66 then Some 0x0C
      else if e = 0x6E then Some 0x0A
      else if e = 0x72 then Some 0x0D
      else if e = 0x74 then Some 0x09
      else None)"

definition cons_result ::
  "jschar \<Rightarrow> (jsstring \<times> jsstring) option \<Rightarrow> (jsstring \<times> jsstring) option" where
  "cons_result c r = (case r of None \<Rightarrow> None | Some (s, rest) \<Rightarrow> Some (c # s, rest))"

text \<open>
  The characters of a JSON string after its opening quote: the decoded string and what
  follows the closing quote. A control character below U+0020 is a syntax error.
\<close>

fun parse_string_body :: "jsstring \<Rightarrow> (jsstring \<times> jsstring) option" where
  "parse_string_body [] = None"
| "parse_string_body (c # cs) =
     (if c = 0x22 then Some ([], cs)
      else if c = 0x5C then
        (case cs of
           [] \<Rightarrow> None
         | e # r \<Rightarrow>
             if e = 0x75 then
               (case r of
                  h1 # h2 # h3 # h4 # r' \<Rightarrow>
                    (case hex4 h1 h2 h3 h4 of
                       None \<Rightarrow> None
                     | Some u \<Rightarrow> cons_result u (parse_string_body r'))
                | _ \<Rightarrow> None)
             else
               (case simple_escape e of
                  None \<Rightarrow> None
                | Some u \<Rightarrow> cons_result u (parse_string_body r)))
      else if c < 0x20 then None
      else cons_result c (parse_string_body cs))"

definition is_ws :: "jschar \<Rightarrow> bool" where
  "is_ws c = (c = 0x09 \<or> c = 0x0A \<or> c = 0x0D \<or> c = 0x20)"

definition skip_ws :: "jsstring \<Rightarrow> jsstring" where
  "skip_ws s = dropWhile is_ws s"

definition is_digit :: "jschar \<Rightarrow> bool" where
  "is_digit c = (0x30 \<le> c \<and> c \<le> 0x39)"

text \<open>An optional fraction: a point and at least one digit.\<close>

definition parse_frac :: "jsstring \<Rightarrow> (jsstring \<times> jsstring) option" where
  "parse_frac s =
     (case s of
        [] \<Rightarrow> Some ([], s)
      | c # r \<Rightarrow>
          if c = 0x2E then
            (if takeWhile is_digit r = [] then None
             else Some (c # takeWhile is_digit r, dropWhile is_digit r))
          else Some ([], s))"

text \<open>An optional exponent: \<open>e\<close> or \<open>E\<close>, an optional sign and at least one digit.\<close>

definition parse_exp :: "jsstring \<Rightarrow> (jsstring \<times> jsstring) option" where
  "parse_exp s =
     (case s of
        [] \<Rightarrow> Some ([], s)
      | c # r \<Rightarrow>
          if c = 0x65 \<or> c = 0x45 then
            (let (sg, r1) =
               (case r of
                  [] \<Rightarrow> ([], r)
                | x # r' \<Rightarrow> if x = 0x2B \<or> x = 0x2D then ([x], r') else ([], r))
             in if takeWhile is_digit r1 = [] then None
                else Some (c # sg @ takeWhile is_digit r1, dropWhile is_digit r1))
          else Some ([], s))"

definition parse_number :: "jsstring \<Rightarrow> (json \<times> jsstring) option" where
  "parse_number s =
     (let (sg, s1) = (case s of [] \<Rightarrow> ([], s) | c # r \<Rightarrow> if c = 0x2D then ([c], r) else ([], s))
      in case s1 of
           [] \<Rightarrow> None
         | d # r \<Rightarrow>
             if \<not> is_digit d then None
             else
               (let (ip, s2) =
                  (if d = 0x30 then ([d], r)
                   else (d # takeWhile is_digit r, dropWhile is_digit r))
                in case parse_frac s2 of
                     None \<Rightarrow> None
                   | Some (fp, s3) \<Rightarrow>
                       (case parse_exp s3 of
                          None \<Rightarrow> None
                        | Some (ep, s4) \<Rightarrow> Some (JNumber (sg @ ip @ fp @ ep), s4))))"

lemma skip_ws_length: "length (skip_ws s) \<le> length s"
  by (simp add: skip_ws_def length_dropWhile_le)

lemma skip_ws_Cons_length: "skip_ws s = d # r \<Longrightarrow> length r < length s"
  using skip_ws_length [of s] by simp

text \<open>
  The recursive descent over the JSON grammar. \<open>parse_value\<close> expects its input at
  the first character of a value; \<open>parse_elements\<close> and \<open>parse_members\<close> read what
  follows \<open>[\<close> and \<open>{\<close> when the container is not empty, with the elements read so far.
  A member whose key is already present replaces the value and keeps the place, as
  \<open>CreateDataProperty\<close> does. Each result is the value and the rest of the input.
  The tests \<open>length _ < length s\<close> are there for the termination proof only:
  \<open>parse_elements_unguarded\<close> and \<open>parse_members_unguarded\<close> below show that they
  always hold.
\<close>

function parse_value :: "jsstring \<Rightarrow> (json \<times> jsstring) option"
  and parse_elements :: "jsstring \<Rightarrow> json list \<Rightarrow> (json \<times> jsstring) option"
  and parse_members :: "jsstring \<Rightarrow> (jsstring \<times> json) list \<Rightarrow> (json \<times> jsstring) option"
  where
  "parse_value [] = None"
| "parse_value (c # cs) =
     (if c = 0x22 then
        (case parse_string_body cs of
           None \<Rightarrow> None
         | Some (str, r) \<Rightarrow> Some (JString str, r))
      else if c = 0x5B then
        (case skip_ws cs of
           [] \<Rightarrow> None
         | d # r \<Rightarrow> if d = 0x5D then Some (JArray [], r) else parse_elements (d # r) [])
      else if c = 0x7B then
        (case skip_ws cs of
           [] \<Rightarrow> None
         | d # r \<Rightarrow> if d = 0x7D then Some (JObject [], r) else parse_members (d # r) [])
      else if take 4 (c # cs) = js ''true'' then Some (JBool True, drop 4 (c # cs))
      else if take 5 (c # cs) = js ''false'' then Some (JBool False, drop 5 (c # cs))
      else if take 4 (c # cs) = js ''null'' then Some (JNull, drop 4 (c # cs))
      else parse_number (c # cs))"
| "parse_elements s acc =
     (case parse_value s of
        None \<Rightarrow> None
      | Some (v, r) \<Rightarrow>
          (case skip_ws r of
             [] \<Rightarrow> None
           | d # r' \<Rightarrow>
               if d = 0x2C then
                 (if length r' < length s then parse_elements (skip_ws r') (acc @ [v])
                  else None)
               else if d = 0x5D then Some (JArray (acc @ [v]), r')
               else None))"
| "parse_members s acc =
     (case s of
        [] \<Rightarrow> None
      | q # s1 \<Rightarrow>
          if q \<noteq> 0x22 then None
          else
            (case parse_string_body s1 of
               None \<Rightarrow> None
             | Some (k, r) \<Rightarrow>
                 (case skip_ws r of
                    [] \<Rightarrow> None
                  | col # r1 \<Rightarrow>
                      if col \<noteq> 0x3A then None
                      else if \<not> length (skip_ws r1) < length s then None
                      else
                        (case parse_value (skip_ws r1) of
                           None \<Rightarrow> None
                         | Some (v, r3) \<Rightarrow>
                             (case skip_ws r3 of
                                [] \<Rightarrow> None
                              | d # r4 \<Rightarrow>
                                  if d = 0x2C then
                                    (if length r4 < length s
                                     then parse_members (skip_ws r4) (AList.update k v acc)
                                     else None)
                                  else if d = 0x7D
                                    then Some (JObject (AList.update k v acc), r4)
                                  else None)))))"
  by pat_completeness auto
termination
proof (relation "measure (\<lambda>x. case x of
    Inl s \<Rightarrow> 2 * length s
  | Inr (Inl (s, acc)) \<Rightarrow> 2 * length s + 1
  | Inr (Inr (s, acc)) \<Rightarrow> 2 * length s + 1)", goal_cases)
  case 1
  show ?case by simp
next
  case (2 c cs d r)
  then show ?case using skip_ws_length [of cs] by simp
next
  case (3 c cs d r)
  then show ?case using skip_ws_length [of cs] by simp
next
  case (4 s acc)
  show ?case by simp
next
  case (5 s acc x v r d r')
  then show ?case using skip_ws_length [of r'] by simp
next
  case (6 s acc q s1 x k r col r1)
  then show ?case by simp
next
  case (7 s acc q s1 x k r col r1 y v r3 d r4)
  then show ?case using skip_ws_length [of r4] by simp
qed

text \<open>
  The equations of \<open>parse_elements\<close> and \<open>parse_members\<close> hold for every
  argument, so they are unfolded by hand.
\<close>

declare parse_elements.simps [simp del] parse_members.simps [simp del]

text \<open>\<open>JSON.parse(text)\<close>: one value between optional white space; \<open>None\<close> is a
  \<open>SyntaxError\<close>.\<close>

definition JSON_parse :: "jsstring \<Rightarrow> json option" where
  "JSON_parse s =
     (case parse_value (skip_ws s) of
        None \<Rightarrow> None
      | Some (v, r) \<Rightarrow> if skip_ws r = [] then Some v else None)"

section \<open>The title pattern, as \<open>String.prototype.match\<close> runs it\<close>

text \<open>
  \<open>htmlOutput.match(/<h1[^>]*>(.*?)<\/h1>/i)\<close> (index.tsx, line 206). The pattern is
  a sequence of single characters, one greedy and one lazy repetition of a character
  class, and one capture group; \<open>match_items\<close> is the backtracking matcher of
  ECMA-262 for patterns of that shape, and \<open>regex_exec\<close> tries the start positions
  from left to right, as a pattern without the \<open>g\<close> flag is run.
\<close>

datatype atom =
    Lit jschar     \<comment> \<open>a pattern character\<close>
  | NotLit jschar  \<comment> \<open>the class \<open>[^c]\<close>\<close>
  | Dot            \<comment> \<open>\<open>.\<close> without the \<open>s\<close> flag\<close>

datatype item =
    One atom
  | Greedy atom    \<comment> \<open>\<open>a*\<close>\<close>
  | Lazy atom      \<comment> \<open>\<open>a*?\<close>\<close>
  | GroupOpen
  | GroupClose

text \<open>
  \<open>Canonicalize\<close> under the \<open>i\<close> flag, for the comparison with an ASCII pattern
  character: an ASCII letter is compared by its upper case, and a code unit from U+0080 on
  never canonicalizes to an ASCII character.
\<close>

definition Canonicalize :: "jschar \<Rightarrow> jschar" where
  "Canonicalize c = (if 0x61 \<le> c \<and> c \<le> 0x7A then c - 0x20 else c)"

definition is_line_terminator :: "jschar \<Rightarrow> bool" where
  "is_line_terminator c = (c = 0x0A \<or> c = 0x0D \<or> c = 0x2028 \<or> c = 0x2029)"

fun atom_matches :: "atom \<Rightarrow> jschar \<Rightarrow> bool" where
  "atom_matches (Lit p) x = (Canonicalize x = Canonicalize p)"
| "atom_matches (NotLit p) x = (Canonicalize x \<noteq> Canonicalize p)"
| "atom_matches Dot x = (\<not> is_line_terminator x)"

text \<open>The capture: whether the group is open, and the characters it has taken.\<close>

fun capture :: "jschar \<Rightarrow> bool \<times> jsstring \<Rightarrow> bool \<times> jsstring" where
  "capture c (opened, g) = (opened, if opened then g @ [c] else g)"

text \<open>
  A greedy repetition tries one more character before it tries the rest of the pattern;
  a lazy one tries the rest first. The result is the text of the capture group.
\<close>

fun match_items :: "item list \<Rightarrow> jsstring \<Rightarrow> bool \<times> jsstring \<Rightarrow> jsstring option" where
  "match_items [] s cap = Some (snd cap)"
| "match_items (One a # r) [] cap = None"
| "match_items (One a # r) (c # cs) cap =
     (if atom_matches a c then match_items r cs (capture c cap) else None)"
| "match_items (Greedy a # r) [] cap = match_items r [] cap"
| "match_items (Greedy a # r) (c # cs) cap =
     (if atom_matches a c then
        (case match_items (Greedy a # r) cs (capture c cap) of
           Some g \<Rightarrow> Some g
         | None \<Rightarrow> match_items r (c # cs) cap)
      else match_items r (c # cs) cap)"
| "match_items (Lazy a # r) [] cap = match_items r [] cap"
| "match_items (Lazy a # r) (c # cs) cap =
     (case match_items r (c # cs) cap of
        Some g \<Rightarrow> Some g
      | None \<Rightarrow>
          if atom_matches a c then match_items (Lazy a # r) cs (capture c cap) else None)"
| "match_items (GroupOpen # r) s cap = match_items r s (True, [])"
| "match_items (GroupClose # r) s cap = match_items r s (False, snd cap)"

fun regex_exec :: "item list \<Rightarrow> jsstring \<Rightarrow> jsstring option" where
  "regex_exec p [] = match_items p [] (False, [])"
| "regex_exec p (c # cs) =
     (case match_items p (c # cs) (False, []) of
        Some g \<Rightarrow> Some g
      | None \<Rightarrow> regex_exec p cs)"

text \<open>\<open>/<h1[^>]*>(.*?)<\/h1>/i\<close>\<close>

definition title_pattern :: "item list" where
  "title_pattern =
     [One (Lit 0x3C), One (Lit 0x68), One (Lit 0x31), Greedy (NotLit 0x3E), One (Lit 0x3E),
      GroupOpen, Lazy Dot, GroupClose,
      One (Lit 0x3C), One (Lit 0x2F), One (Lit 0x68), One (Lit 0x31), One (Lit 0x3E)]"

text \<open>
  Lines 206-207: \<open>titleMatch ? titleMatch[1] : "Untitled Analysis"\<close>.
\<close>

definition extract_title :: "jsstring \<Rightarrow> jsstring" where
  "extract_title htmlOutput =
     (case regex_exec title_pattern htmlOutput of
        Some g \<Rightarrow> g
      | None \<Rightarrow> js ''Untitled Analysis'')"

section \<open>Types and constants (index.tsx, lines 5-35)\<close>

datatype VisualTheme = Modern_Scholar | Manuscript

fun VisualTheme_text :: "VisualTheme \<Rightarrow> jsstring" where
  "VisualTheme_text Modern_Scholar = js ''Modern Scholar''"
| "VisualTheme_text Manuscript = js ''Manuscript''"

datatype View = Welcome | Infographic

text \<open>
  \<open>interface LibraryEntry\<close>. The field \<open>id\<close> is \<open>id'\<close> here. \<open>analysisLens\<close> is a
  \<open>string\<close> in the interface, and the form's lens is set from it by an unchecked cast
  (line 276), so both are strings in the model.
\<close>

record LibraryEntry =
  id' :: jsstring
  title :: jsstring
  sourceText :: jsstring
  infographicHtml :: jsstring
  analysisLens :: jsstring
  customDirectives :: jsstring
  visualTheme :: VisualTheme
  createdAt :: jsstring
  refinementHistory :: "jsstring list"

definition ANALYSIS_LENSES :: "jsstring list" where
  "ANALYSIS_LENSES =
     [js ''General Summary'', js ''Halachic Structure & Process'',
      js ''Philosophical Deep Dive'', js ''Character & Narrative Analysis'',
      js ''Compare & Contrast Viewpoints'']"

definition QUOTES :: "jsstring list" where
  "QUOTES =
     [js ''Turn it, and turn it, for everything is in it. (Ben Bag Bag, Pirkei Avot 5:22)'',
      js ''The world stands on three things: on Torah, on service, and on acts of loving-kindness. (Shimon Hatzadik, Pirkei Avot 1:2)'',
      js ''The day is short, the work is great... It is not your duty to finish the work, but neither are you at liberty to neglect it. (Rabbi Tarfon, Pirkei Avot 2:15-16)'',
      js ''Who is wise? He who learns from every man. (Ben Zoma, Pirkei Avot 4:1)'']"

section \<open>The library as JSON\<close>

text \<open>
  The object \<open>JSON.stringify\<close> sees for a record: its own properties in the order the
  object literal of line 220 creates them (the spread of line 211 keeps that order).
\<close>

definition entry_json :: "LibraryEntry \<Rightarrow> json" where
  "entry_json e =
     JObject
      [(js ''id'', JString (id' e)),
       (js ''title'', JString (title e)),
       (js ''sourceText'', JString (sourceText e)),
       (js ''infographicHtml'', JString (infographicHtml e)),
       (js ''analysisLens'', JString (analysisLens e)),
       (js ''customDirectives'', JString (customDirectives e)),
       (js ''visualTheme'', JString (VisualTheme_text (visualTheme e))),
       (js ''createdAt'', JString (createdAt e)),
       (js ''refinementHistory'', JArray (map JString (refinementHistory e)))]"

definition library_json :: "LibraryEntry list \<Rightarrow> json" where
  "library_json lib = JArray (map entry_json lib)"

text \<open>
  \<open>setLibrary(JSON.parse(savedLibrary))\<close> stores what was parsed without a check. The
  functions below read a parsed value as the \<open>LibraryEntry[]\<close> the state is declared
  to hold: an array of objects with exactly the nine fields, in any order. They give
  \<open>None\<close> for any other value.
\<close>

definition string_field :: "(jsstring \<times> json) list \<Rightarrow> string \<Rightarrow> jsstring option" where
  "string_field kvs k = (case map_of kvs (js k) of Some (JString s) \<Rightarrow> Some s | _ \<Rightarrow> None)"

definition VisualTheme_of :: "jsstring \<Rightarrow> VisualTheme option" where
  "VisualTheme_of s =
     (if s = js ''Modern Scholar'' then Some Modern_Scholar
      else if s = js ''Manuscript'' then Some Manuscript
      else None)"

fun string_of_json :: "json \<Rightarrow> jsstring option" where
  "string_of_json (JString s) = Some s"
| "string_of_json _ = None"

text \<open>All elements of a list of options, or \<open>None\<close> when one is \<open>None\<close>.\<close>

fun sequence :: "'a option list \<Rightarrow> 'a list option" where
  "sequence [] = Some []"
| "sequence (x # xs) =
     (case x of
        None \<Rightarrow> None
      | Some y \<Rightarrow> (case sequence xs of None \<Rightarrow> None | Some ys \<Rightarrow> Some (y # ys)))"

definition strings_field :: "(jsstring \<times> json) list \<Rightarrow> string \<Rightarrow> jsstring list option" where
  "strings_field kvs k =
     (case map_of kvs (js k) of
        Some (JArray vs) \<Rightarrow> sequence (map string_of_json vs)
      | _ \<Rightarrow> None)"

definition entry_of_json :: "json \<Rightarrow> LibraryEntry option" where
  "entry_of_json v =
     (case v of
        JObject kvs \<Rightarrow>
          (if length kvs \<noteq> 9 then None
           else
             (case (string_field kvs ''id'', string_field kvs ''title'',
                    string_field kvs ''sourceText'', string_field kvs ''infographicHtml'',
                    string_field kvs ''analysisLens'', string_field kvs ''customDirectives'',
                    Option.bind (string_field kvs ''visualTheme'') VisualTheme_of,
                    string_field kvs ''createdAt'', strings_field kvs ''refinementHistory'') of
                (Some i, Some t, Some src, Some html, Some lens, Some dir, Some theme,
                 Some created, Some hist) \<Rightarrow>
                  Some \<lparr>id' = i, title = t, sourceText = src, infographicHtml = html,
                        analysisLens = lens, customDirectives = dir, visualTheme = theme,
                        createdAt = created, refinementHistory = hist\<rparr>
              | _ \<Rightarrow> None))
      | _ \<Rightarrow> None)"

definition library_of_json :: "json \<Rightarrow> LibraryEntry list option" where
  "library_of_json v =
     (case v of JArray vs \<Rightarrow> sequence (map entry_of_json vs) | _ \<Rightarrow> None)"

section \<open>The application state and its environment\<close>

text \<open>
  A value thrown or a rejection: its \<open>message\<close> property, \<open>None\<close> when it has none.
\<close>

datatype js_error = JsError (message: "jsstring option")

text \<open>What an awaited promise gives.\<close>

datatype 'a promise = Rejected js_error | Resolved 'a

text \<open>
  An uploaded \<open>File\<close>: its MIME type, and what \<open>FileReader.readAsDataURL\<close> makes of
  it (\<open>reader.onerror\<close> or \<open>reader.result\<close>).
\<close>

record File =
  file_type :: jsstring
  readAsDataURL :: "js_error + jsstring"

text \<open>The arguments of \<open>model.generateContent\<close>.\<close>

datatype part = text_part jsstring | inlineData jsstring "jsstring option"

record content =
  role :: jsstring
  parts :: "part list"

record request =
  model :: jsstring
  contents :: "content list"

text \<open>
  The state of the \<open>App\<close> component (lines 57-74) and, after it, what the component
  does to the browser: the \<open>yedu-library\<close> slot of \<open>localStorage\<close>, the messages it
  has shown with \<open>alert\<close>, the first argument of each \<open>console.error\<close>, the requests
  it has sent to the model, and the files it has offered for download (name and
  content). The form's fields carry the suffix \<open>_form\<close>; \<open>sourceText_form\<close> is
  \<open>None\<close> after \<open>setSourceText(undefined)\<close> (line 132, when the response has no text).
\<close>

record app =
  view :: View
  isLoading :: bool
  loadingQuote :: jsstring
  currentAnalysis :: "LibraryEntry option"
  sourceText_form :: "jsstring option"
  analysisLens_form :: jsstring
  customDirectives_form :: jsstring
  visualTheme_form :: VisualTheme
  library :: "LibraryEntry list"
  isSidebarOpen :: bool
  isRefineModalOpen :: bool
  refineDirectives :: jsstring
  storage :: "jsstring option"
  alerts :: "jsstring list"
  console :: "jsstring list"
  requests :: "request list"
  downloads :: "(jsstring \<times> jsstring) list"

text \<open>The component as first rendered, over a given content of the storage slot.\<close>

definition initial_app :: "jsstring option \<Rightarrow> app" where
  "initial_app stored =
     \<lparr>view = Welcome, isLoading = False, loadingQuote = [], currentAnalysis = None,
      sourceText_form = Some [], analysisLens_form = js ''General Summary'',
      customDirectives_form = [], visualTheme_form = Modern_Scholar, library = [],
      isSidebarOpen = False, isRefineModalOpen = False, refineDirectives = [],
      storage = stored, alerts = [], console = [], requests = [], downloads = []\<rparr>"

text \<open>
  What one run of \<open>handleGenerate\<close> gets from outside: the index
  \<open>Math.floor(Math.random() * QUOTES.length)\<close> (below 4), the outcome of the awaited
  \<open>generateContent\<close> (the response's \<open>text\<close>, of type \<open>string | undefined\<close>), the
  values of the two \<open>new Date().toISOString()\<close> of lines 221 and 228, and whether
  \<open>localStorage.setItem\<close> throws.
\<close>

record gen_env =
  quote_index :: nat
  response :: "jsstring option promise"
  now_id :: jsstring
  now_createdAt :: jsstring
  setItem_throws :: bool

section \<open>The effects and handlers\<close>

text \<open>
  What an effect ends with: it returned, an exception left it, or it stored a parsed
  value that is not the \<open>LibraryEntry[]\<close> its type declares.
\<close>

datatype effect_result = Returned app | Uncaught js_error | Untyped json

text \<open>
  The \<open>try\<close> block of the first effect (lines 79-82). \<open>denied\<close>: reading
  \<open>localStorage\<close> throws. An empty string is falsy, as \<open>null\<close> is.
\<close>

definition loadLibrary_try :: "bool \<Rightarrow> app \<Rightarrow> effect_result" where
  "loadLibrary_try denied s =
     (if denied then Uncaught (JsError (Some (js ''The operation is insecure.'')))
      else
        (case storage s of
           None \<Rightarrow> Returned s
         | Some savedLibrary \<Rightarrow>
             if savedLibrary = [] then Returned s
             else
               (case JSON_parse savedLibrary of
                  None \<Rightarrow> Uncaught (JsError (Some (js ''JSON.parse: unexpected character'')))
                | Some v \<Rightarrow>
                    (case library_of_json v of
                       None \<Rightarrow> Untyped v
                     | Some lib \<Rightarrow> Returned (s\<lparr>library := lib\<rparr>)))))"

text \<open>The effect with its \<open>catch\<close> (lines 77-86).\<close>

definition loadLibrary_effect :: "bool \<Rightarrow> app \<Rightarrow> effect_result" where
  "loadLibrary_effect denied s =
     (case loadLibrary_try denied s of
        Uncaught error \<Rightarrow>
          Returned (s\<lparr>console := console s @ [js ''Failed to load library from localStorage'']\<rparr>)
      | r \<Rightarrow> r)"

text \<open>Lines 92-99.\<close>

definition saveLibrary :: "bool \<Rightarrow> LibraryEntry list \<Rightarrow> app \<Rightarrow> app" where
  "saveLibrary throws newLibrary s =
     (let s1 = s\<lparr>library := newLibrary\<rparr>
      in if throws
         then s1\<lparr>console := console s1 @ [js ''Failed to save library to localStorage'']\<rparr>
         else s1\<lparr>storage := Some (JSON_stringify (library_json newLibrary))\<rparr>)"

text \<open>
  \<open>result.split(',')[1]\<close> (line 49): what stands between the first comma and the
  second, \<open>undefined\<close> when there is no comma.
\<close>

definition split_comma_1 :: "jsstring \<Rightarrow> jsstring option" where
  "split_comma_1 result =
     (case dropWhile (\<lambda>c. c \<noteq> 0x2C) result of
        [] \<Rightarrow> None
      | comma # rest \<Rightarrow> Some (takeWhile (\<lambda>c. c \<noteq> 0x2C) rest))"

definition fileToBase64 :: "File \<Rightarrow> jsstring option promise" where
  "fileToBase64 file =
     (case readAsDataURL file of
        Inl error \<Rightarrow> Rejected error
      | Inr result \<Rightarrow> Resolved (split_comma_1 result))"

definition supportedTypes :: "jsstring list" where
  "supportedTypes = [js ''audio/mpeg'', js ''audio/mp3'', js ''audio/x-m4a'', js ''audio/mp4'']"

text \<open>\<open>getSystemPrompt\<close> (lines 144-174), the template literal line by line.\<close>

definition getSystemPrompt ::
  "jsstring \<Rightarrow> jsstring \<Rightarrow> VisualTheme \<Rightarrow> jsstring \<Rightarrow> jsstring" where
  \<open>getSystemPrompt lens directives theme task =
     js ''\<newline>'' @
     js ''            Role: You are an AI Scholarly Architect and Data Visualization expert. Your domain is the synthesis of complex textual and spoken-word content into structured, insightful, and aesthetically refined academic summaries.\<newline>'' @
     js ''            Core Task: '' @ task @ js '', strictly adhering to the user's specified [Analysis Lens] and [Custom Directives]. Your output must be a single, self-contained, interactive HTML file that functions as a rich, infographic-style summary.\<newline>'' @
     js ''            Input:\<newline>'' @
     js ''            - A full-text transcript.\<newline>'' @
     js ''            - An [Analysis Lens] selection from the user: "'' @ lens @ js ''"\<newline>'' @
     js ''            - Optional [Custom Directives] from the user: "'' @ directives @ js ''"\<newline>'' @
     js ''            - A [Visual Theme] selection: "'' @ VisualTheme_text theme @ js ''"\<newline>'' @
     js ''            Output Specification: A Single, Well-Formed HTML File.\<newline>'' @
     js ''            Methodology & Required Content Structure:\<newline>'' @
     js ''            1.  Deep Analysis: First, synthesize the transcript's core theme, arguments, terminology, and logical flow, filtering everything through the prism of the user's chosen [Analysis Lens] and [Custom Directives].\<newline>'' @
     js ''            2.  Infographic Blueprint (Semantic HTML): Structure the output using the following sections. Omit any section that is not relevant to the source material.\<newline>'' @
     js ''                A. Main Title (<h1>): A concise, descriptive title reflecting the lesson's core topic.\<newline>'' @
     js ''                B. Core Thesis (<p class="intro">): A highlighted paragraph stating the central argument or takeaway.\<newline>'' @
     js ''                C. Key Concepts & Terminology (<section class="concepts-grid">): Present foundational ideas in a grid of "cards." Each card must contain a relevant emoji/icon, the concept's name (<h3>), and a clear definition (<p>). Use a <table> for direct comparisons if central to the analysis.\<newline>'' @
     js ''                D. Logical Flow / Schematic Diagram (<section class="flowchart">): If the content describes a process, hierarchy, or argument structure, represent it schematically using nested lists, text, and Unicode arrows ('' @ [0x2193] @ js '', '' @ [0x2192] @ js '', '' @ [0x21B3] @ js '').\<newline>'' @
     js ''                E. Supporting Examples & Sources (<section class="examples">): Extract concrete examples.\<newline>'' @
     js ''                F. Questions for Further Inquiry (<section class="further-inquiry">): Generate 2-3 probing, open-ended questions that challenge the user to think more deeply about the material's implications.\<newline>'' @
     js ''                G. Concluding Summary (<p class="conclusion">): A final paragraph that recaps the main points and reinforces the core thesis.\<newline>'' @
     js ''            3.  HTML Formatting, Styling, and Interactivity:\<newline>'' @
     js ''                - Single File Output: All content must be in one HTML file. All CSS must be contained within a single <style> block in the <head>. DO NOT use external links for anything.\<newline>'' @
     js ''                - Bespoke Visual Themes: Apply internal CSS that corresponds to the user-selected [Visual Theme].\<newline>'' @
     js ''                  - Manuscript Theme: Use sepia/parchment backgrounds (#f5f1e8), dark brown text (#4a2c2a), serif fonts ('Frank Ruhl Libre'), and subtle gold/amber accents.\<newline>'' @
     js ''                  - Modern Scholar Theme: Use a clean off-white (#f8f9fa) or dark charcoal (#212529) background, sans-serif fonts ('Heebo'), and one bold, primary color for headings and borders.\<newline>'' @
     js ''                - Direct Editability: Ensure all primary text containers (h1-h6, p, li, th, td) have the contenteditable="true" attribute.\<newline>'' @
     js ''            4.  Trust & Verification Footer:\<newline>'' @
     js ''                - Conclude with a <footer> containing a Confidence Score (e.g., "Confidence: High") and disclaimers for any ambiguities.\<newline>'' @
     js ''            Final Constraint: The output language must strictly match the primary language of the input transcript.\<newline>'' @
     js ''        ''\<close>

text \<open>The request of lines 191-194.\<close>

definition generate_request :: "jsstring \<Rightarrow> jsstring \<Rightarrow> request" where
  "generate_request prompt textToAnalyze =
     \<lparr>model = js ''gemini-2.5-pro'',
      contents =
        [\<lparr>role = js ''user'',
          parts = [text_part prompt,
                   text_part (js ''Transcript to analyze: \<newline>\<newline>'' @ textToAnalyze)]\<rparr>]\<rparr>"

text \<open>The request of lines 116-129.\<close>

definition transcribe_request :: "File \<Rightarrow> jsstring option \<Rightarrow> request" where
  "transcribe_request file base64Audio =
     \<lparr>model = js ''gemini-2.5-pro'',
      contents =
        [\<lparr>role = js ''user'',
          parts =
            [text_part (js ''Please transcribe the following audio recording into clean, coherent text. Remove any filler words, stutters, or false starts. The output should be a single block of text representing the spoken content.''),
             inlineData (file_type file) base64Audio]\<rparr>]\<rparr>"

text \<open>The \<open>catch\<close> of \<open>handleGenerate\<close> (lines 235-237).\<close>

definition generate_catch :: "js_error \<Rightarrow> app \<Rightarrow> app" where
  "generate_catch error s =
     s\<lparr>console := console s @ [js ''Error generating analysis:''],
       alerts := alerts s @
         [or_else (message error)
            (js ''An error occurred while analyzing the text. Please try again.'')]\<rparr>"

text \<open>Its \<open>finally\<close> (lines 238-242).\<close>

definition generate_finally :: "app \<Rightarrow> app" where
  "generate_finally s = s\<lparr>isLoading := False, isRefineModalOpen := False, refineDirectives := []\<rparr>"

definition empty_response_message :: jsstring where
  "empty_response_message =
     js ''The AI model returned an empty response. This could be due to content safety filters or an issue with the prompt. Please try modifying your input or directives.''"

text \<open>
  \<open>library.map(item => item.id === currentAnalysis.id ? updatedAnalysis : item)\<close>
  (lines 217 and 255).
\<close>

definition replace_by_id :: "LibraryEntry \<Rightarrow> LibraryEntry \<Rightarrow> LibraryEntry list \<Rightarrow> LibraryEntry list" where
  "replace_by_id cur updatedAnalysis lib =
     map (\<lambda>item. if id' item = id' cur then updatedAnalysis else item) lib"

text \<open>The object literal of lines 210-215.\<close>

definition refined_entry :: "LibraryEntry \<Rightarrow> jsstring \<Rightarrow> jsstring \<Rightarrow> LibraryEntry" where
  "refined_entry cur htmlOutput directives =
     cur\<lparr>infographicHtml := htmlOutput, title := extract_title htmlOutput,
         refinementHistory := refinementHistory cur @ [directives]\<rparr>"

text \<open>The object literal of lines 220-230, in the render \<open>c\<close>.\<close>

definition new_entry :: "app \<Rightarrow> jsstring \<Rightarrow> jsstring \<Rightarrow> gen_env \<Rightarrow> LibraryEntry" where
  "new_entry c textToAnalyze htmlOutput env =
     \<lparr>id' = now_id env,
      title = extract_title htmlOutput,
      sourceText = textToAnalyze,
      infographicHtml = htmlOutput,
      analysisLens = analysisLens_form c,
      customDirectives = customDirectives_form c,
      visualTheme = visualTheme_form c,
      createdAt = now_createdAt env,
      refinementHistory = []\<rparr>"

text \<open>
  Line 177: \<open>textOverride ?? (isRefinement ? currentAnalysis?.sourceText : sourceText)\<close>.
  The argument \<open>textOverride\<close> is \<open>None\<close> when it is left out or \<open>undefined\<close>.
\<close>

definition textToAnalyze_of :: "app \<Rightarrow> bool \<Rightarrow> jsstring option \<Rightarrow> jsstring option" where
  "textToAnalyze_of c isRefinement textOverride =
     (case textOverride of
        Some t \<Rightarrow> Some t
      | None \<Rightarrow>
          if isRefinement then map_option sourceText (currentAnalysis c)
          else sourceText_form c)"

text \<open>
  \<open>handleGenerate\<close> (lines 176-243). A handler is a closure of one render: it reads the
  state of that render, here \<open>c\<close>, and its setters write to the state as it is now,
  here \<open>s\<close>. The two are the same when the handler is called from the page; they
  differ in the form's source text when \<open>handleFileSelect\<close> calls it (line 135).
  With a response of type \<open>string | undefined\<close>, the test of line 200 is that the text
  is \<open>undefined\<close> or empty.
\<close>

definition handleGenerate ::
  "app \<Rightarrow> bool \<Rightarrow> jsstring option \<Rightarrow> gen_env \<Rightarrow> app \<Rightarrow> app" where
  "handleGenerate c isRefinement textOverride env s =
     (case truthy (textToAnalyze_of c isRefinement textOverride) of
        None \<Rightarrow> s\<lparr>alerts := alerts s @ [js ''Please provide some text to analyze.'']\<rparr>
      | Some textToAnalyze \<Rightarrow>
          (let s1 = s\<lparr>isLoading := True, loadingQuote := QUOTES ! quote_index env\<rparr>;
               directives = (if isRefinement then refineDirectives c else customDirectives_form c);
               task = (if isRefinement
                       then js ''Refine the previous analysis based on the new directive''
                       else js ''Analyze the provided transcript'');
               prompt = getSystemPrompt (analysisLens_form c) directives (visualTheme_form c) task;
               s2 = s1\<lparr>requests := requests s1 @ [generate_request prompt textToAnalyze]\<rparr>
           in generate_finally
             (case response env of
                Rejected error \<Rightarrow> generate_catch error s2
              | Resolved text \<Rightarrow>
                  (case truthy text of
                     None \<Rightarrow>
                       generate_catch (JsError (Some empty_response_message))
                         (s2\<lparr>console := console s2 @
                            [js ''Analysis generation returned an empty or invalid response:'']\<rparr>)
                   | Some htmlOutput \<Rightarrow>
                       (case (if isRefinement then currentAnalysis c else None) of
                          Some cur \<Rightarrow>
                            (let updatedAnalysis = refined_entry cur htmlOutput directives
                             in saveLibrary (setItem_throws env)
                                  (replace_by_id cur updatedAnalysis (library c))
                                  (s2\<lparr>currentAnalysis := Some updatedAnalysis\<rparr>))
                        | None \<Rightarrow>
                            (let newEntry = new_entry c textToAnalyze htmlOutput env
                             in (saveLibrary (setItem_throws env) (newEntry # library c)
                                   (s2\<lparr>currentAnalysis := Some newEntry\<rparr>))
                                 \<lparr>view := Infographic\<rparr>))))))"

text \<open>
  The two halves of a run of \<open>handleGenerate\<close>, for runs that overlap: what it does
  up to the \<open>await\<close> of line 191, where the request is sent, and what it does once the
  response is there (lines 196-242). Both belong to the render \<open>c\<close> in which the
  handler was called; between the two the page may have moved on, so the second half
  writes to the state it finds. The page has no guard against a second call while the
  first one waits.
\<close>

definition handleGenerate_start ::
  "app \<Rightarrow> bool \<Rightarrow> jsstring option \<Rightarrow> gen_env \<Rightarrow> app \<Rightarrow> app" where
  "handleGenerate_start c isRefinement textOverride env s =
     (case truthy (textToAnalyze_of c isRefinement textOverride) of
        None \<Rightarrow> s\<lparr>alerts := alerts s @ [js ''Please provide some text to analyze.'']\<rparr>
      | Some textToAnalyze \<Rightarrow>
          (let s1 = s\<lparr>isLoading := True, loadingQuote := QUOTES ! quote_index env\<rparr>;
               directives = (if isRefinement then refineDirectives c else customDirectives_form c);
               task = (if isRefinement
                       then js ''Refine the previous analysis based on the new directive''
                       else js ''Analyze the provided transcript'');
               prompt = getSystemPrompt (analysisLens_form c) directives (visualTheme_form c) task
           in s1\<lparr>requests := requests s1 @ [generate_request prompt textToAnalyze]\<rparr>))"

definition handleGenerate_resume ::
  "app \<Rightarrow> bool \<Rightarrow> jsstring option \<Rightarrow> gen_env \<Rightarrow> app \<Rightarrow> app" where
  "handleGenerate_resume c isRefinement textOverride env s =
     (case truthy (textToAnalyze_of c isRefinement textOverride) of
        None \<Rightarrow> s
      | Some textToAnalyze \<Rightarrow>
          (let directives = (if isRefinement then refineDirectives c else customDirectives_form c)
           in generate_finally
             (case response env of
                Rejected error \<Rightarrow> generate_catch error s
              | Resolved text \<Rightarrow>
                  (case truthy text of
                     None \<Rightarrow>
                       generate_catch (JsError (Some empty_response_message))
                         (s\<lparr>console := console s @
                            [js ''Analysis generation returned an empty or invalid response:'']\<rparr>)
                   | Some htmlOutput \<Rightarrow>
                       (case (if isRefinement then currentAnalysis c else None) of
                          Some cur \<Rightarrow>
                            (let updatedAnalysis = refined_entry cur htmlOutput directives
                             in saveLibrary (setItem_throws env)
                                  (replace_by_id cur updatedAnalysis (library c))
                                  (s\<lparr>currentAnalysis := Some updatedAnalysis\<rparr>))
                        | None \<Rightarrow>
                            (let newEntry = new_entry c textToAnalyze htmlOutput env
                             in (saveLibrary (setItem_throws env) (newEntry # library c)
                                   (s\<lparr>currentAnalysis := Some newEntry\<rparr>))
                                 \<lparr>view := Infographic\<rparr>))))))"

text \<open>The \<open>catch\<close> of \<open>handleFileSelect\<close> (lines 137-141).\<close>

definition transcribe_catch :: "js_error \<Rightarrow> app \<Rightarrow> app" where
  "transcribe_catch error s =
     s\<lparr>console := console s @ [js ''Error transcribing audio:''],
       alerts := alerts s @
         [js ''An error occurred during transcription or analysis: '' @
          or_else (message error) (js ''Please try again.'')],
       isLoading := False\<rparr>"

text \<open>
  \<open>handleFileSelect\<close> (lines 102-142), with the outcome of the awaited transcription
  call and what the chained \<open>handleGenerate\<close> gets. \<open>handleGenerate\<close> catches what its
  own body throws, so the outer \<open>catch\<close> is reached from the file read and from the
  transcription call only.
\<close>

definition handleFileSelect ::
  "File option \<Rightarrow> jsstring option promise \<Rightarrow> gen_env \<Rightarrow> app \<Rightarrow> app" where
  "handleFileSelect file transcribed env s =
     (case file of
        None \<Rightarrow> s
      | Some f \<Rightarrow>
          if file_type f \<notin> set supportedTypes then
            s\<lparr>alerts := alerts s @
                [js ''Unsupported file type: '' @ file_type f @
                 js ''. Please upload an MP3 or M4A file.'']\<rparr>
          else
            (let s1 = s\<lparr>isLoading := True,
                        loadingQuote := js ''Transcribing your audio, one moment...''\<rparr>
             in case fileToBase64 f of
                  Rejected error \<Rightarrow> transcribe_catch error s1
                | Resolved base64Audio \<Rightarrow>
                    (let s2 = s1\<lparr>requests := requests s1 @ [transcribe_request f base64Audio]\<rparr>
                     in case transcribed of
                          Rejected error \<Rightarrow> transcribe_catch error s2
                        | Resolved transcription \<Rightarrow>
                            handleGenerate s False transcription env
                              (s2\<lparr>sourceText_form := transcription\<rparr>))))"

text \<open>
  \<open>handleSaveChanges\<close> (lines 245-258). \<open>innerHTML\<close> is that of
  \<open>infographicRef.current\<close>, \<open>None\<close> when the reference is \<open>null\<close>.
\<close>

definition handleSaveChanges :: "jsstring option \<Rightarrow> bool \<Rightarrow> app \<Rightarrow> app" where
  "handleSaveChanges innerHTML throws s =
     (case currentAnalysis s of
        None \<Rightarrow> s
      | Some cur \<Rightarrow>
          (case innerHTML of
             None \<Rightarrow> s
           | Some updatedHtml \<Rightarrow>
               (let updatedAnalysis = cur\<lparr>infographicHtml := updatedHtml\<rparr>;
                    s1 = saveLibrary throws (replace_by_id cur updatedAnalysis (library s))
                           (s\<lparr>currentAnalysis := Some updatedAnalysis\<rparr>)
                in s1\<lparr>alerts := alerts s1 @ [js ''Changes saved to library.'']\<rparr>)))"

text \<open>\<open>title.replace(/ /g, '_')\<close> (line 266).\<close>

definition replace_spaces :: "jsstring \<Rightarrow> jsstring" where
  "replace_spaces t = map (\<lambda>c. if c = 0x20 then 0x5F else c) t"

text \<open>
  \<open>handleDownloadHtml\<close> (lines 260-271): the \<open>download\<close> attribute of the link that
  is clicked, and the string the \<open>Blob\<close> is made of.
\<close>

definition handleDownloadHtml :: "app \<Rightarrow> app" where
  "handleDownloadHtml s =
     (case currentAnalysis s of
        None \<Rightarrow> s
      | Some cur \<Rightarrow>
          s\<lparr>downloads := downloads s @
              [(replace_spaces (title cur) @ js ''.html'', infographicHtml cur)]\<rparr>)"

text \<open>Lines 273-281.\<close>

definition loadAnalysis :: "LibraryEntry \<Rightarrow> app \<Rightarrow> app" where
  "loadAnalysis entry s =
     s\<lparr>currentAnalysis := Some entry, sourceText_form := Some (sourceText entry),
       analysisLens_form := analysisLens entry, customDirectives_form := customDirectives entry,
       visualTheme_form := visualTheme entry, view := Infographic, isSidebarOpen := False\<rparr>"

text \<open>Lines 283-288.\<close>

definition startNewAnalysis :: "app \<Rightarrow> app" where
  "startNewAnalysis s =
     s\<lparr>currentAnalysis := None, sourceText_form := Some [], customDirectives_form := [],
       view := Welcome\<rparr>"

section \<open>The page's events\<close>

text \<open>
  What the rendered page can call (lines 290-333 and the child components): the buttons
  and fields, each with what its handler gets from outside. The sidebar lists entries
  of the library, so \<open>LoadAnalysis\<close> names one by its position.
\<close>

datatype event =
    Generate gen_env
  | SubmitRefine gen_env
  | FileSelect "File option" "jsstring option promise" gen_env
  | SaveChanges "jsstring option" bool
  | Download
  | LoadAnalysis nat
  | NewAnalysis
  | SetSourceText jsstring
  | SetAnalysisLens jsstring
  | SetCustomDirectives jsstring
  | SetVisualTheme VisualTheme
  | SetRefineDirectives jsstring
  | OpenRefine
  | CloseRefine
  | OpenLibrary
  | CloseSidebar

text \<open>
  An event is one call of a handler, run to its end in the render the page shows at that
  moment: an asynchronous handler is followed through its \<open>await\<close>s before the next
  event is taken. A list of events is the page used with one operation in flight at a
  time. A handler called while another one waits for its response is not an event of
  this kind; runs that overlap are put together from \<open>handleGenerate_start\<close> and
  \<open>handleGenerate_resume\<close>.
\<close>

fun step :: "event \<Rightarrow> app \<Rightarrow> app" where
  "step (Generate env) s = handleGenerate s False None env s"
| "step (SubmitRefine env) s = handleGenerate s True None env s"
| "step (FileSelect file transcribed env) s = handleFileSelect file transcribed env s"
| "step (SaveChanges innerHTML throws) s = handleSaveChanges innerHTML throws s"
| "step Download s = handleDownloadHtml s"
| "step (LoadAnalysis i) s = (if i < length (library s) then loadAnalysis (library s ! i) s else s)"
| "step NewAnalysis s = startNewAnalysis s"
| "step (SetSourceText v) s = s\<lparr>sourceText_form := Some v\<rparr>"
| "step (SetAnalysisLens v) s = s\<lparr>analysisLens_form := v\<rparr>"
| "step (SetCustomDirectives v) s = s\<lparr>customDirectives_form := v\<rparr>"
| "step (SetVisualTheme v) s = s\<lparr>visualTheme_form := v\<rparr>"
| "step (SetRefineDirectives v) s = s\<lparr>refineDirectives := v\<rparr>"
| "step OpenRefine s = s\<lparr>isRefineModalOpen := True\<rparr>"
| "step CloseRefine s = s\<lparr>isRefineModalOpen := False\<rparr>"
| "step OpenLibrary s = s\<lparr>isSidebarOpen := True\<rparr>"
| "step CloseSidebar s = s\<lparr>isSidebarOpen := False\<rparr>"

text \<open>The events of a list, one after the other.\<close>

definition run :: "event list \<Rightarrow> app \<Rightarrow> app" where
  "run es s = fold step es s"

section \<open>Sample values\<close>

text \<open>
  What one run gets from outside when the write to storage succeeds: the response and
  the clock's reading, the same for both time stamps.
\<close>

definition env_of :: "jsstring option promise \<Rightarrow> jsstring \<Rightarrow> gen_env" where
  "env_of r stamp =
     \<lparr>quote_index = 0, response = r, now_id = stamp, now_createdAt = stamp,
      setItem_throws = False\<rparr>"

text \<open>The page as first rendered over an empty storage, with a lesson typed in.\<close>

definition lesson_typed :: app where
  "lesson_typed = step (SetSourceText (js ''Sample lesson text'')) (initial_app None)"

text \<open>Three uploads: an MP3 that can be read, one that cannot, and a text file.\<close>

definition readable_mp3 :: File where
  "readable_mp3 =
     \<lparr>file_type = js ''audio/mpeg'', readAsDataURL = Inr (js ''data:audio/mpeg;base64,SUQz'')\<rparr>"

definition unreadable_mp3 :: File where
  "unreadable_mp3 =
     \<lparr>file_type = js ''audio/mpeg'',
      readAsDataURL = Inl (JsError (Some (js ''The file could not be read.'')))\<rparr>"

definition text_file :: File where
  "text_file =
     \<lparr>file_type = js ''text/plain'', readAsDataURL = Inr (js ''data:text/plain;base64,aGk='')\<rparr>"

section \<open>Notions the claims are stated with\<close>

text \<open>
  The events that leave the record on the screen where it is: all but a generation, an
  upload, the choice of another record in the sidebar and the start of a new analysis.
\<close>

fun keeps_record :: "event \<Rightarrow> bool" where
  "keeps_record (Generate env) = False"
| "keeps_record (FileSelect file transcribed env) = False"
| "keeps_record (LoadAnalysis i) = False"
| "keeps_record NewAnalysis = False"
| "keeps_record e = True"

text \<open>
  The library entries that carry the current record's id are the current record. This
  holds when no two entries share an id and the current record is one of the library's.
\<close>

definition coherent :: "app \<Rightarrow> bool" where
  "coherent s =
     (case currentAnalysis s of
        None \<Rightarrow> True
      | Some cur \<Rightarrow> list_all (\<lambda>e. id' e = id' cur \<longrightarrow> e = cur) (library s))"

text \<open>
  No two library entries share an id, and the entries that carry the id of the record on
  the screen are that record.
\<close>

definition unique_ids :: "app \<Rightarrow> bool" where
  "unique_ids s = (distinct (map id' (library s)) \<and> coherent s)"

text \<open>
  The clock reading that an event takes for the id of a new record is not the id of a
  library entry; and the same for each event of a list, at the state it is taken in.
\<close>

fun creates_fresh :: "event \<Rightarrow> app \<Rightarrow> bool" where
  "creates_fresh (Generate env) s = (now_id env \<notin> id' ` set (library s))"
| "creates_fresh (FileSelect file transcribed env) s = (now_id env \<notin> id' ` set (library s))"
| "creates_fresh e s = True"

fun fresh_ids :: "event list \<Rightarrow> app \<Rightarrow> bool" where
  "fresh_ids [] s = True"
| "fresh_ids (e # es) s = (creates_fresh e s \<and> fresh_ids es (step e s))"

text \<open>
  A record that was refined once, with the directive \<open>fix typo\<close>, on the screen and in
  the library, and the next directive typed into the refine dialog.
\<close>

definition typo_fixed_record :: LibraryEntry where
  "typo_fixed_record =
     \<lparr>id' = js ''2025-01-01T10:00:00.000Z'', title = js ''One'',
      sourceText = js ''Sample lesson text'', infographicHtml = js ''<h1>One</h1>'',
      analysisLens = js ''General Summary'', customDirectives = [],
      visualTheme = Modern_Scholar, createdAt = js ''2025-01-01T10:00:00.001Z'',
      refinementHistory = [js ''fix typo'']\<rparr>"

definition typo_fixed :: app where
  "typo_fixed =
     (initial_app None)
       \<lparr>view := Infographic, currentAnalysis := Some typo_fixed_record,
        library := [typo_fixed_record], isRefineModalOpen := True,
        refineDirectives := js ''add a table''\<rparr>"

text \<open>
  What the next refinement and the first generation get from outside, and two ways to go
  on from the refined record: an edit saved and a refinement, or a refinement and then
  a new record from another lesson.
\<close>

definition add_table_env :: gen_env where
  "add_table_env = env_of (Resolved (Some (js ''<h1>Two</h1>''))) (js ''2025-01-02T10:00:00.000Z'')"

definition first_env :: gen_env where
  "first_env = env_of (Resolved (Some (js ''<h1>One</h1>''))) (js ''2025-01-01T10:00:00.000Z'')"

definition edit_then_refine :: "event list" where
  "edit_then_refine =
     [SaveChanges (Some (js ''<h1>Edited</h1>'')) False, SubmitRefine add_table_env]"

definition refine_then_create :: "event list" where
  "refine_then_create =
     [SubmitRefine add_table_env,
      NewAnalysis,
      SetSourceText (js ''Another lesson''),
      Generate (env_of (Resolved (Some (js ''<h1>Three</h1>''))) (js ''2025-01-03T10:00:00.000Z''))]"

text \<open>
  A record is created and refined once; then a second record is created from another
  lesson, at a clock reading equal to the id of the first.
\<close>

definition same_stamp_twice :: app where
  "same_stamp_twice =
     run [Generate (env_of (Resolved (Some (js ''<h1>One</h1>''))) (js ''2025-01-01T10:00:00.000Z'')),
          OpenRefine,
          SetRefineDirectives (js ''fix typo''),
          SubmitRefine (env_of (Resolved (Some (js ''<h1>One.</h1>''))) (js ''2025-01-01T10:05:00.000Z'')),
          NewAnalysis,
          SetSourceText (js ''Another lesson''),
          Generate (env_of (Resolved (Some (js ''<h1>Two</h1>''))) (js ''2025-01-01T10:00:00.000Z''))]
       lesson_typed"

text \<open>
  Two refinements that overlap. A record is created and the directive \<open>fix typo\<close> is
  typed (\<open>refine_typed\<close>); the refinement is submitted and, while it waits, the
  directive \<open>add a table\<close> is typed (\<open>first_submitted\<close>) and submitted too
  (\<open>both_submitted\<close>); then the first response arrives (\<open>first_answered\<close>) and
  the second (\<open>second_answered\<close>), each taken by the handler of the render it was
  called in.
\<close>

definition refine_typed :: app where
  "refine_typed =
     run [Generate (env_of (Resolved (Some (js ''<h1>One</h1>''))) (js ''2025-01-01T10:00:00.000Z'')),
          OpenRefine,
          SetRefineDirectives (js ''fix typo'')]
       lesson_typed"

definition first_submitted :: app where
  "first_submitted =
     step (SetRefineDirectives (js ''add a table''))
       (handleGenerate_start refine_typed True None
          (env_of (Resolved (Some (js ''<h1>One.</h1>''))) (js ''2025-01-01T10:05:00.000Z''))
          refine_typed)"

definition both_submitted :: app where
  "both_submitted =
     handleGenerate_start first_submitted True None
       (env_of (Resolved (Some (js ''<h1>One</h1><table></table>''))) (js ''2025-01-01T10:05:01.000Z''))
       first_submitted"

definition first_answered :: app where
  "first_answered =
     handleGenerate_resume refine_typed True None
       (env_of (Resolved (Some (js ''<h1>One.</h1>''))) (js ''2025-01-01T10:05:00.000Z''))
       both_submitted"

definition second_answered :: app where
  "second_answered =
     handleGenerate_resume first_submitted True None
       (env_of (Resolved (Some (js ''<h1>One</h1><table></table>''))) (js ''2025-01-01T10:05:01.000Z''))
       first_answered"

text \<open>
  A character that is safe in a file name on every platform: an ASCII letter, a digit,
  or one of \<open>_ - .\<close>
\<close>

definition filename_safe :: "jschar \<Rightarrow> bool" where
  "filename_safe c =
     ((0x30 \<le> c \<and> c \<le> 0x39) \<or> (0x41 \<le> c \<and> c \<le> 0x5A) \<or> (0x61 \<le> c \<and> c \<le> 0x7A)
      \<or> c = 0x5F \<or> c = 0x2D \<or> c = 0x2E)"

text \<open>A record on the screen whose title has a slash and a colon.\<close>

definition slash_titled :: app where
  "slash_titled =
     (initial_app None)
       \<lparr>view := Infographic,
        currentAnalysis := Some (typo_fixed_record\<lparr>title := js ''Shabbat 31a/b: Hillel''\<rparr>),
        library := [typo_fixed_record\<lparr>title := js ''Shabbat 31a/b: Hillel''\<rparr>]\<rparr>"

text \<open>
  The values \<open>JSON.stringify\<close> writes for the library: no numbers, and no object with
  a key twice.
\<close>

fun plain :: "json \<Rightarrow> bool" where
  "plain JNull = True"
| "plain (JBool b) = True"
| "plain (JNumber n) = False"
| "plain (JString s) = True"
| "plain (JArray vs) = (\<forall>v \<in> set vs. plain v)"
| "plain (JObject kvs) = (distinct (map fst kvs) \<and> (\<forall>kv \<in> set kvs. plain (snd kv)))"

text \<open>The first character of a value that is not a number.\<close>

definition starts_value :: "jsstring \<Rightarrow> bool" where
  "starts_value s =
     (case s of
        [] \<Rightarrow> False
      | c # cs \<Rightarrow> c = 0x22 \<or> c = 0x5B \<or> c = 0x7B \<or> c = 0x6E \<or> c = 0x74 \<or> c = 0x66)"

section \<open>Facts about the handlers\<close>

lemma env_of_simps [simp]:
  "response (env_of r stamp) = r" "now_id (env_of r stamp) = stamp"
  "now_createdAt (env_of r stamp) = stamp" "setItem_throws (env_of r stamp) = False"
  "quote_index (env_of r stamp) = 0"
  by (simp_all add: env_of_def)

lemma js_eq_Nil [simp]: "js s = [] \<longleftrightarrow> s = []"
  by (simp add: js_def)

lemma truthy_Some_iff: "truthy v = Some t \<longleftrightarrow> v = Some t \<and> t \<noteq> []"
  by (auto simp: truthy_def split: option.splits)

lemma truthy_None_iff: "truthy v = None \<longleftrightarrow> v = None \<or> v = Some []"
  by (auto simp: truthy_def split: option.splits)

lemma or_else_simps [simp]:
  "or_else None d = d" "or_else (Some []) d = d" "m \<noteq> [] \<Longrightarrow> or_else (Some m) d = m"
  by (simp_all add: or_else_def truthy_def)

lemma saveLibrary_fields [simp]:
  "library (saveLibrary throws lib s) = lib"
  "currentAnalysis (saveLibrary throws lib s) = currentAnalysis s"
  "alerts (saveLibrary throws lib s) = alerts s"
  "requests (saveLibrary throws lib s) = requests s"
  "downloads (saveLibrary throws lib s) = downloads s"
  "view (saveLibrary throws lib s) = view s"
  "isLoading (saveLibrary throws lib s) = isLoading s"
  "sourceText_form (saveLibrary throws lib s) = sourceText_form s"
  "analysisLens_form (saveLibrary throws lib s) = analysisLens_form s"
  "customDirectives_form (saveLibrary throws lib s) = customDirectives_form s"
  "visualTheme_form (saveLibrary throws lib s) = visualTheme_form s"
  "refineDirectives (saveLibrary throws lib s) = refineDirectives s"
  "storage (saveLibrary throws lib s)
     = (if throws then storage s else Some (JSON_stringify (library_json lib)))"
  by (simp_all add: saveLibrary_def Let_def)

text \<open>The run of \<open>handleGenerate\<close> that finds no text.\<close>

lemma handleGenerate_no_text:
  "truthy (textToAnalyze_of c isRefinement textOverride) = None \<Longrightarrow>
   handleGenerate c isRefinement textOverride env s
     = s\<lparr>alerts := alerts s @ [js ''Please provide some text to analyze.'']\<rparr>"
  by (simp add: handleGenerate_def)

text \<open>What every run that sends its request leaves in the fields it does not decide on.\<close>

lemma handleGenerate_sent:
  assumes "truthy (textToAnalyze_of c isRefinement textOverride) = Some text"
  shows "requests (handleGenerate c isRefinement textOverride env s)
           = requests s @
             [generate_request
                (getSystemPrompt (analysisLens_form c)
                   (if isRefinement then refineDirectives c else customDirectives_form c)
                   (visualTheme_form c)
                   (if isRefinement
                    then js ''Refine the previous analysis based on the new directive''
                    else js ''Analyze the provided transcript''))
                text]"
    and "isLoading (handleGenerate c isRefinement textOverride env s) = False"
    and "sourceText_form (handleGenerate c isRefinement textOverride env s) = sourceText_form s"
    and "analysisLens_form (handleGenerate c isRefinement textOverride env s) = analysisLens_form s"
    and "customDirectives_form (handleGenerate c isRefinement textOverride env s)
           = customDirectives_form s"
    and "visualTheme_form (handleGenerate c isRefinement textOverride env s) = visualTheme_form s"
  using assms
  by (auto simp: handleGenerate_def Let_def generate_finally_def generate_catch_def
      split: promise.splits option.splits)

text \<open>The run that fails: the request is rejected, or its text is falsy.\<close>

lemma handleGenerate_failed:
  assumes "truthy (textToAnalyze_of c isRefinement textOverride) = Some text"
    and "response env = Rejected error \<or> (\<exists>t. response env = Resolved t \<and> truthy t = None)"
  shows "library (handleGenerate c isRefinement textOverride env s) = library s"
    and "currentAnalysis (handleGenerate c isRefinement textOverride env s) = currentAnalysis s"
    and "storage (handleGenerate c isRefinement textOverride env s) = storage s"
    and "view (handleGenerate c isRefinement textOverride env s) = view s"
  using assms
  by (auto simp: handleGenerate_def Let_def generate_finally_def generate_catch_def)

text \<open>The run that creates a record.\<close>

lemma handleGenerate_created:
  assumes "truthy (textToAnalyze_of c False textOverride) = Some text"
    and "response env = Resolved t" and "truthy t = Some html"
  shows "library (handleGenerate c False textOverride env s) = new_entry c text html env # library c"
    and "currentAnalysis (handleGenerate c False textOverride env s)
           = Some (new_entry c text html env)"
    and "view (handleGenerate c False textOverride env s) = Infographic"
    and "storage (handleGenerate c False textOverride env s)
           = (if setItem_throws env then storage s
              else Some (JSON_stringify (library_json (new_entry c text html env # library c))))"
  using assms
  by (simp_all add: handleGenerate_def Let_def generate_finally_def)

text \<open>The run that refines the current record.\<close>

lemma handleGenerate_refined:
  assumes "currentAnalysis c = Some cur" and "sourceText cur \<noteq> []"
    and "response env = Resolved t" and "truthy t = Some html"
  shows "library (handleGenerate c True None env s)
           = replace_by_id cur (refined_entry cur html (refineDirectives c)) (library c)"
    and "currentAnalysis (handleGenerate c True None env s)
           = Some (refined_entry cur html (refineDirectives c))"
    and "view (handleGenerate c True None env s) = view s"
  using assms
  by (simp_all add: handleGenerate_def Let_def generate_finally_def textToAnalyze_of_def
      truthy_def)

lemma Nil_eq_js [simp]: "[] = js s \<longleftrightarrow> s = []"
  by (simp add: js_def)

lemma lesson_typed_fields [simp]:
  "sourceText_form lesson_typed = Some (js ''Sample lesson text'')"
  "library lesson_typed = []" "currentAnalysis lesson_typed = None"
  "alerts lesson_typed = []" "storage lesson_typed = None" "requests lesson_typed = []"
  "customDirectives_form lesson_typed = []" "refineDirectives lesson_typed = []"
  "analysisLens_form lesson_typed = js ''General Summary''"
  "visualTheme_form lesson_typed = Modern_Scholar"
  by (simp_all add: lesson_typed_def initial_app_def)

lemma run_Nil [simp]: "run [] s = s"
  by (simp add: run_def)

lemma run_Cons [simp]: "run (e # es) s = run es (step e s)"
  by (simp add: run_def)

lemma run_append [simp]: "run (es @ es') s = run es' (run es s)"
  by (simp add: run_def)

section \<open>Facts about the JSON functions\<close>

lemma unat_of_nat16: "k < 65536 \<Longrightarrow> unat (of_nat k :: jschar) = k"
  by (simp add: unat_of_nat)

lemma unat_hex_digit: "n < 16 \<Longrightarrow> unat (hex_digit n) = (if n < 10 then 48 + n else 87 + n)"
  using unat_of_nat16 [of "48 + n"] unat_of_nat16 [of "87 + n"]
  by (simp add: hex_digit_def del: of_nat_add)

lemma hex_value_unat:
  "hex_value c =
     (if 48 \<le> unat c \<and> unat c \<le> 57 then Some (unat c - 48)
      else if 97 \<le> unat c \<and> unat c \<le> 102 then Some (unat c - 97 + 10)
      else if 65 \<le> unat c \<and> unat c \<le> 70 then Some (unat c - 65 + 10)
      else None)"
  by (simp add: hex_value_def word_le_nat_alt)

lemma hex_digit_value: "n < 16 \<Longrightarrow> hex_value (hex_digit n) = Some n"
  by (simp add: hex_value_unat unat_hex_digit)

lemma digits16:
  "4096 * (n div 4096 mod 16) + 256 * (n div 256 mod 16) + 16 * (n div 16 mod 16) + n mod 16
     = (n::nat) mod 65536"
proof -
  have a: "n mod 65536 = 16 * (n div 16 mod 4096) + n mod 16"
    using mod_mult2_eq [of n 16 4096] by simp
  have b: "n div 16 mod 4096 = 16 * (n div 16 div 16 mod 256) + n div 16 mod 16"
    using mod_mult2_eq [of "n div 16" 16 256] by simp
  have c: "n div 256 mod 256 = 16 * (n div 256 div 16 mod 16) + n div 256 mod 16"
    using mod_mult2_eq [of "n div 256" 16 16] by simp
  have d: "n div 16 div 16 = n div 256" "n div 256 div 16 = n div 4096"
    by (simp_all add: div_mult2_eq [symmetric])
  show ?thesis using a b c d by simp
qed

text \<open>The four digits of \<open>UnicodeEscape\<close> are read back as the code unit.\<close>

lemma hex4_escape:
  "hex4 (hex_digit (unat c div 4096 mod 16)) (hex_digit (unat c div 256 mod 16))
        (hex_digit (unat c div 16 mod 16)) (hex_digit (unat c mod 16)) = Some c"
proof -
  have lt: "unat c < 65536" using unsigned_less [of c, where ?'a = nat] by simp
  have "hex4 (hex_digit (unat c div 4096 mod 16)) (hex_digit (unat c div 256 mod 16))
        (hex_digit (unat c div 16 mod 16)) (hex_digit (unat c mod 16))
      = Some (of_nat (4096 * (unat c div 4096 mod 16) + 256 * (unat c div 256 mod 16)
          + 16 * (unat c div 16 mod 16) + unat c mod 16))"
    by (simp only: hex4_def hex_digit_value mod_less_divisor zero_less_numeral
        prod.case option.case)
  also have "\<dots> = Some (of_nat (unat c))"
    by (simp only: digits16 mod_less [OF lt])
  finally show ?thesis by simp
qed

lemma cons_result_simps [simp]:
  "cons_result c None = None" "cons_result c (Some (s, r)) = Some (c # s, r)"
  by (simp_all add: cons_result_def)

text \<open>What \<open>QuoteJSONString\<close> writes for a code unit is read back as that code unit.\<close>

lemma parse_quote_unit:
  "parse_string_body (quote_unit c @ rest) = cons_result c (parse_string_body rest)"
proof -
  consider (table) "c = 0x08 \<or> c = 0x09 \<or> c = 0x0A \<or> c = 0x0C \<or> c = 0x0D \<or> c = 0x22 \<or> c = 0x5C"
    | (escaped) "\<not> (c = 0x08 \<or> c = 0x09 \<or> c = 0x0A \<or> c = 0x0C \<or> c = 0x0D \<or> c = 0x22 \<or> c = 0x5C)"
        "c < 0x20 \<or> is_lead c \<or> is_trail c"
    | (verbatim) "c \<noteq> 0x22" "c \<noteq> 0x5C" "\<not> c < 0x20" "\<not> is_lead c" "\<not> is_trail c"
        "\<not> (c = 0x08 \<or> c = 0x09 \<or> c = 0x0A \<or> c = 0x0C \<or> c = 0x0D)"
    by blast
  then show ?thesis
  proof cases
    case table
    then show ?thesis by (auto simp: quote_unit_def simple_escape_def)
  next
    case escaped
    have "parse_string_body (UnicodeEscape c @ rest) = cons_result c (parse_string_body rest)"
      by (simp add: UnicodeEscape_def hex4_escape)
    then show ?thesis using escaped by (simp add: quote_unit_def)
  next
    case verbatim
    then show ?thesis by (simp add: quote_unit_def)
  qed
qed

lemma parse_surrogate_pair:
  assumes "is_lead c" and "is_trail d"
  shows "parse_string_body (c # d # rest)
           = cons_result c (cons_result d (parse_string_body rest))"
proof -
  have "c \<noteq> 0x22" "c \<noteq> 0x5C" "\<not> c < 0x20" "d \<noteq> 0x22" "d \<noteq> 0x5C" "\<not> d < 0x20"
    using assms by (auto simp: is_lead_def is_trail_def word_le_nat_alt word_less_nat_alt)
  then show ?thesis by simp
qed

lemma parse_quote_units:
  "parse_string_body (quote_units s @ 0x22 # rest) = Some (s, rest)"
proof (induction s rule: quote_units.induct)
  case 1
  show ?case by simp
next
  case (2 c)
  show ?case by (simp add: parse_quote_unit)
next
  case (3 c d cs)
  show ?case
  proof (cases "is_lead c \<and> is_trail d")
    case True
    then have "quote_units (c # d # cs) @ 0x22 # rest = c # d # (quote_units cs @ 0x22 # rest)"
      by simp
    then have "parse_string_body (quote_units (c # d # cs) @ 0x22 # rest)
        = parse_string_body (c # d # (quote_units cs @ 0x22 # rest))"
      by (rule arg_cong)
    also have "\<dots> = cons_result c (cons_result d
        (parse_string_body (quote_units cs @ 0x22 # rest)))"
      using True by (intro parse_surrogate_pair) simp_all
    also have "\<dots> = Some (c # d # cs, rest)"
      using 3(1) [OF True] by simp
    finally show ?thesis .
  next
    case False
    then have "quote_units (c # d # cs) @ 0x22 # rest
        = quote_unit c @ (quote_units (d # cs) @ 0x22 # rest)"
      by auto
    then have "parse_string_body (quote_units (c # d # cs) @ 0x22 # rest)
        = parse_string_body (quote_unit c @ (quote_units (d # cs) @ 0x22 # rest))"
      by (rule arg_cong)
    also have "\<dots> = cons_result c (parse_string_body (quote_units (d # cs) @ 0x22 # rest))"
      by (rule parse_quote_unit)
    also have "\<dots> = Some (c # d # cs, rest)"
      using 3(2) [OF False] by simp
    finally show ?thesis .
  qed
qed

lemma starts_value_stringify: "plain v \<Longrightarrow> starts_value (JSON_stringify v @ rest)"
  by (cases v) (simp_all add: starts_value_def js_def QuoteJSONString_def)

lemma starts_value_skip_ws: "starts_value s \<Longrightarrow> skip_ws s = s"
  by (cases s) (auto simp: starts_value_def skip_ws_def is_ws_def)

lemma starts_value_Cons:
  "starts_value s \<Longrightarrow> \<exists>d r. s = d # r \<and> d \<noteq> 0x5D \<and> d \<noteq> 0x7D"
  by (cases s) (auto simp: starts_value_def)

lemma skip_ws_not_ws: "\<not> is_ws c \<Longrightarrow> skip_ws (c # s) = c # s"
  by (simp add: skip_ws_def)

lemma parse_elements_stringify:
  assumes "vs \<noteq> []"
    and "\<And>v rest. v \<in> set vs \<Longrightarrow> parse_value (JSON_stringify v @ rest) = Some (v, rest)"
    and "\<And>v. v \<in> set vs \<Longrightarrow> plain v"
  shows "parse_elements (intercalate [0x2C] (map JSON_stringify vs) @ 0x5D # rest) acc
           = Some (JArray (acc @ vs), rest)"
  using assms
proof (induction vs arbitrary: acc)
  case Nil
  then show ?case by simp
next
  case (Cons v vs)
  show ?case
  proof (cases vs)
    case Nil
    have "parse_value (JSON_stringify v @ 0x5D # rest) = Some (v, 0x5D # rest)"
      using Cons.prems(2) by simp
    then show ?thesis
      using Nil
      by (subst parse_elements.simps) (simp add: skip_ws_not_ws is_ws_def)
  next
    case (Cons w ws)
    let ?tail = "intercalate [0x2C] (map JSON_stringify (w # ws)) @ 0x5D # rest"
    have sv: "starts_value ?tail"
      using starts_value_stringify [of w] Cons.prems(3) [of w] Cons
      by (cases ws) (simp_all add: local.Cons)
    have pv: "parse_value (JSON_stringify v @ 0x2C # ?tail) = Some (v, 0x2C # ?tail)"
      using Cons.prems(2) by simp
    have ih: "parse_elements ?tail (acc @ [v]) = Some (JArray ((acc @ [v]) @ w # ws), rest)"
      using Cons.IH [of "acc @ [v]"] Cons.prems(2,3) Cons by simp
    have "parse_elements (JSON_stringify v @ 0x2C # ?tail) acc
        = Some (JArray (acc @ v # w # ws), rest)"
      using pv ih sv
      by (subst parse_elements.simps)
        (simp add: skip_ws_not_ws is_ws_def starts_value_skip_ws)
    then show ?thesis using Cons by simp
  qed
qed


lemma update_fresh: "k \<notin> fst ` set acc \<Longrightarrow> AList.update k v acc = acc @ [(k, v)]"
  by (induction acc) auto

lemma parse_member:
  assumes "parse_value (JSON_stringify v @ tail) = Some (v, tail)" and "plain v"
  shows "parse_members (QuoteJSONString k @ 0x3A # JSON_stringify v @ tail) acc
           = (case skip_ws tail of
                [] \<Rightarrow> None
              | d # r4 \<Rightarrow>
                  if d = 0x2C then parse_members (skip_ws r4) (AList.update k v acc)
                  else if d = 0x7D then Some (JObject (AList.update k v acc), r4)
                  else None)"
proof -
  have sv: "skip_ws (JSON_stringify v @ tail) = JSON_stringify v @ tail"
    using starts_value_stringify [OF assms(2)] by (rule starts_value_skip_ws)
  show ?thesis
    by (subst parse_members.simps)
      (auto simp: QuoteJSONString_def parse_quote_units skip_ws_not_ws is_ws_def sv assms(1)
        split: list.splits dest: skip_ws_Cons_length)
qed

lemma parse_members_stringify:
  assumes "kvs \<noteq> []"
    and "\<And>kv rest. kv \<in> set kvs \<Longrightarrow>
           parse_value (JSON_stringify (snd kv) @ rest) = Some (snd kv, rest)"
    and "\<And>kv. kv \<in> set kvs \<Longrightarrow> plain (snd kv)"
    and "distinct (map fst (acc @ kvs))"
  shows "parse_members
           (intercalate [0x2C]
              (map (\<lambda>kv. QuoteJSONString (fst kv) @ 0x3A # JSON_stringify (snd kv)) kvs)
            @ 0x7D # rest) acc
           = Some (JObject (acc @ kvs), rest)"
  using assms
proof (induction kvs arbitrary: acc)
  case Nil
  then show ?case by simp
next
  case (Cons kv kvs)
  obtain k v where kv: "kv = (k, v)" by (cases kv)
  have fresh: "AList.update k v acc = acc @ [(k, v)]"
    using Cons.prems(4) kv by (intro update_fresh) auto
  have pl: "plain v" using Cons.prems(3) [of kv] kv by simp
  show ?case
  proof (cases kvs)
    case Nil
    have "parse_value (JSON_stringify v @ 0x7D # rest) = Some (v, 0x7D # rest)"
      using Cons.prems(2) [of kv] kv by simp
    from parse_member [OF this pl, of k acc]
    show ?thesis using Nil kv fresh by (simp add: skip_ws_not_ws is_ws_def)
  next
    case (Cons kw kws)
    let ?tail = "intercalate [0x2C]
        (map (\<lambda>kv. QuoteJSONString (fst kv) @ 0x3A # JSON_stringify (snd kv)) (kw # kws))
        @ 0x7D # rest"
    have tail: "skip_ws ?tail = ?tail"
      by (cases kws) (simp_all add: QuoteJSONString_def skip_ws_not_ws is_ws_def)
    have "parse_value (JSON_stringify v @ 0x2C # ?tail) = Some (v, 0x2C # ?tail)"
      using Cons.prems(2) [of kv] kv by simp
    moreover have comma: "skip_ws (0x2C # ?tail) = 0x2C # ?tail"
      by (simp add: skip_ws_not_ws is_ws_def)
    ultimately have "parse_members (QuoteJSONString k @ 0x3A # JSON_stringify v @ 0x2C # ?tail) acc
        = parse_members ?tail (acc @ [(k, v)])"
      using parse_member [OF _ pl, of "0x2C # ?tail" k acc]
      by (simp only: comma tail fresh list.case simp_thms if_True)
    also have "\<dots> = Some (JObject ((acc @ [(k, v)]) @ kw # kws), rest)"
      using Cons.IH [of "acc @ [(k, v)]"] Cons.prems(2,3,4) Cons kv by simp
    finally show ?thesis using Cons kv by simp
  qed
qed

text \<open>\<open>JSON.parse\<close> reads back what \<open>JSON.stringify\<close> wrote.\<close>

lemma parse_value_stringify:
  "plain v \<Longrightarrow> parse_value (JSON_stringify v @ rest) = Some (v, rest)"
proof (induction v arbitrary: rest)
  case JNull
  show ?case by (simp add: js_def)
next
  case (JBool b)
  show ?case by (simp add: js_def)
next
  case (JNumber n)
  then show ?case by simp
next
  case (JString s)
  show ?case by (simp add: QuoteJSONString_def parse_quote_units)
next
  case (JArray vs)
  show ?case
  proof (cases vs)
    case Nil
    then show ?thesis by (simp add: skip_ws_not_ws is_ws_def)
  next
    case (Cons w ws)
    let ?body = "intercalate [0x2C] (map JSON_stringify vs) @ 0x5D # rest"
    have sv: "starts_value ?body"
      using starts_value_stringify [of w] JArray.prems Cons by (cases ws) simp_all
    obtain d r where dr: "?body = d # r" "d \<noteq> 0x5D"
      using starts_value_Cons [OF sv] by blast
    have "parse_elements ?body [] = Some (JArray ([] @ vs), rest)"
    proof (rule parse_elements_stringify)
      show "vs \<noteq> []" using Cons by simp
      show "plain v" if "v \<in> set vs" for v using that JArray.prems by simp
      show "parse_value (JSON_stringify v @ rest) = Some (v, rest)" if "v \<in> set vs" for v rest
        using that JArray.IH [of v rest] JArray.prems by simp
    qed
    then show ?thesis
      using dr starts_value_skip_ws [OF sv] by simp
  qed
next
  case (JObject kvs)
  show ?case
  proof (cases kvs)
    case Nil
    then show ?thesis by (simp add: skip_ws_not_ws is_ws_def)
  next
    case (Cons kw kws)
    let ?body = "intercalate [0x2C]
        (map (\<lambda>kv. QuoteJSONString (fst kv) @ 0x3A # JSON_stringify (snd kv)) kvs)
        @ 0x7D # rest"
    have hd: "\<exists>r. ?body = 0x22 # r"
      using Cons by (cases kws) (simp_all add: QuoteJSONString_def)
    then obtain r where r: "?body = 0x22 # r" by blast
    have "parse_members ?body [] = Some (JObject ([] @ kvs), rest)"
    proof (rule parse_members_stringify)
      show "kvs \<noteq> []" using Cons by simp
      show "distinct (map fst ([] @ kvs))" using JObject.prems by simp
      show "plain (snd kv)" if "kv \<in> set kvs" for kv using that JObject.prems by simp
      show "parse_value (JSON_stringify (snd kv) @ rest) = Some (snd kv, rest)"
        if "kv \<in> set kvs" for kv rest
      proof -
        obtain a b where ab: "kv = (a, b)" by (cases kv)
        have "b \<in> Basic_BNFs.snds (a, b)" by simp
        moreover have "plain b" using that ab JObject.prems by auto
        ultimately show ?thesis
          using JObject.IH [of "(a, b)" b rest] that ab by simp
      qed
    qed
    then show ?thesis
      using r by (simp add: skip_ws_not_ws is_ws_def)
  qed
qed

lemma JSON_parse_stringify: "plain v \<Longrightarrow> JSON_parse (JSON_stringify v) = Some v"
proof -
  assume "plain v"
  then have "parse_value (JSON_stringify v) = Some (v, [])"
    and "skip_ws (JSON_stringify v) = JSON_stringify v"
    using parse_value_stringify [of v "[]"] starts_value_stringify [of v "[]"]
    by (simp_all add: starts_value_skip_ws)
  moreover have "skip_ws [] = []" by (simp add: skip_ws_def)
  ultimately show ?thesis by (simp add: JSON_parse_def)
qed

text \<open>The lexers consume what they read.\<close>

lemma cons_result_Some:
  "cons_result c x = Some (s, r) \<Longrightarrow> \<exists>s'. x = Some (s', r) \<and> s = c # s'"
  by (cases x) (auto simp: cons_result_def)

lemma parse_string_body_length:
  "parse_string_body s = Some (str, r) \<Longrightarrow> length r < length s"
proof (induction s arbitrary: str rule: parse_string_body.induct)
  case 1
  then show ?case by simp
next
  case (2 c cs)
  then show ?case
    by (fastforce split: if_splits list.splits option.splits dest!: cons_result_Some)
qed

lemma parse_frac_length: "parse_frac s = Some (f, r) \<Longrightarrow> length r \<le> length s"
proof (cases s)
  case Nil
  then show "parse_frac s = Some (f, r) \<Longrightarrow> length r \<le> length s"
    by (auto simp: parse_frac_def)
next
  case (Cons c t)
  then show "parse_frac s = Some (f, r) \<Longrightarrow> length r \<le> length s"
    using length_dropWhile_le [of is_digit t]
    by (auto simp: parse_frac_def split: if_splits)
qed

lemma parse_exp_length:
  assumes "parse_exp s = Some (f, r)"
  shows "length r \<le> length s"
proof (cases s)
  case Nil
  then show ?thesis using assms by (auto simp: parse_exp_def)
next
  case (Cons c t)
  show ?thesis
  proof (cases t)
    case Nil
    then show ?thesis using assms Cons by (auto simp: parse_exp_def split: if_splits)
  next
    case (Cons x t')
    then show ?thesis
      using assms \<open>s = c # t\<close> length_dropWhile_le [of is_digit t]
        length_dropWhile_le [of is_digit t']
      by (auto simp: parse_exp_def Let_def split: if_splits)
  qed
qed

lemma parse_number_length:
  assumes "parse_number s = Some (v, r)"
  shows "length r < length s"
proof -
  obtain sg s1 where sg: "(case s of [] \<Rightarrow> ([], s) | c # r \<Rightarrow> if c = 0x2D then ([c], r) else ([], s)) = (sg, s1)"
    by (cases "(case s of [] \<Rightarrow> ([], s) | c # r \<Rightarrow> if c = 0x2D then ([c], r) else ([], s))") auto
  then have s1: "length s1 \<le> length s"
    by (auto split: list.splits if_splits)
  from assms sg obtain d t where dt: "s1 = d # t" "is_digit d"
    by (cases s1) (auto simp: parse_number_def split: if_splits)
  obtain ip s2 where ip: "(if d = 0x30 then ([d], t)
      else (d # takeWhile is_digit t, dropWhile is_digit t)) = (ip, s2)"
    by (cases "(if d = 0x30 then ([d], t) else (d # takeWhile is_digit t, dropWhile is_digit t))")
      auto
  then have s2: "length s2 \<le> length t"
    using length_dropWhile_le [of is_digit t] by (auto split: if_splits)
  from assms sg dt ip obtain fp s3 ep where "parse_frac s2 = Some (fp, s3)"
    "parse_exp s3 = Some (ep, r)"
    by (auto simp: parse_number_def split: option.splits)
  then have "length r \<le> length s2"
    using parse_frac_length parse_exp_length by (meson le_trans)
  then show ?thesis using s1 s2 dt by simp
qed

lemma literal_drop:
  "take n s = lit \<Longrightarrow> lit \<noteq> [] \<Longrightarrow> length (drop n s) < length s"
  by (cases s; cases n) auto

text \<open>Every successful parse consumes input.\<close>

lemma parse_shrinks:
  "\<forall>v r. parse_value s = Some (v, r) \<longrightarrow> length r < length s"
  "\<forall>v r. parse_elements s1 acc1 = Some (v, r) \<longrightarrow> length r < length s1"
  "\<forall>v r. parse_members s2 acc2 = Some (v, r) \<longrightarrow> length r < length s2"
proof (induction s and s1 acc1 and s2 acc2 rule: parse_value_parse_elements_parse_members.induct)
  case 1
  show ?case by simp
next
  case (2 c cs)
  show ?case
  proof (intro allI impI)
    fix v r
    assume a: "parse_value (c # cs) = Some (v, r)"
    consider (str) "c = 0x22" | (arr) "c \<noteq> 0x22" "c = 0x5B"
      | (obj) "c \<noteq> 0x22" "c \<noteq> 0x5B" "c = 0x7B"
      | (other) "c \<noteq> 0x22" "c \<noteq> 0x5B" "c \<noteq> 0x7B"
      by blast
    then show "length r < length (c # cs)"
    proof cases
      case str
      then show ?thesis
        using a by (auto split: option.splits dest: parse_string_body_length)
    next
      case arr
      then obtain d r0 where d: "skip_ws cs = d # r0"
        using a by (cases "skip_ws cs") auto
      show ?thesis
      proof (cases "d = 0x5D")
        case True
        then show ?thesis using a arr d skip_ws_Cons_length [OF d] by simp
      next
        case False
        then have "parse_elements (d # r0) [] = Some (v, r)" using a arr d by simp
        then have "length r < length (d # r0)" using 2(1) [OF arr d False] by blast
        then show ?thesis using skip_ws_Cons_length [OF d] by simp
      qed
    next
      case obj
      then obtain d r0 where d: "skip_ws cs = d # r0"
        using a by (cases "skip_ws cs") auto
      show ?thesis
      proof (cases "d = 0x7D")
        case True
        then show ?thesis using a obj d skip_ws_Cons_length [OF d] by simp
      next
        case False
        then have "parse_members (d # r0) [] = Some (v, r)" using a obj d by simp
        then have "length r < length (d # r0)" using 2(2) [OF obj d False] by blast
        then show ?thesis using skip_ws_Cons_length [OF d] by simp
      qed
    next
      case other
      then show ?thesis
        using a literal_drop [of 4 "c # cs" "js ''true''"] literal_drop [of 5 "c # cs" "js ''false''"]
          literal_drop [of 4 "c # cs" "js ''null''"] parse_number_length [of "c # cs" v r]
        by (auto split: if_splits)
    qed
  qed
next
  case (3 s acc)
  show ?case
  proof (intro allI impI)
    fix v r
    assume a: "parse_elements s acc = Some (v, r)"
    then obtain x y where xy: "parse_value s = Some (x, y)"
      by (subst (asm) parse_elements.simps) (auto split: option.splits)
    then have y: "length y < length s" using 3(1) by blast
    from a xy obtain d r' where d: "skip_ws y = d # r'"
      by (subst (asm) parse_elements.simps) (auto split: list.splits)
    have r': "length r' < length s" using skip_ws_Cons_length [OF d] y by simp
    show "length r < length s"
    proof (cases "d = 0x2C")
      case True
      then have "parse_elements (skip_ws r') (acc @ [x]) = Some (v, r)"
        using a xy d r' by (subst (asm) parse_elements.simps) simp
      then have "length r < length (skip_ws r')"
        using 3(2) [OF xy refl d True r'] by blast
      then show ?thesis using skip_ws_length [of r'] r' by simp
    next
      case False
      then have "r = r'"
        using a xy d by (subst (asm) parse_elements.simps) (auto split: if_splits)
      then show ?thesis using r' by simp
    qed
  qed
next
  case (4 s acc)
  show ?case
  proof (intro allI impI)
    fix v r
    assume a: "parse_members s acc = Some (v, r)"
    then obtain q s0 where s: "s = q # s0" "\<not> q \<noteq> 0x22"
      by (subst (asm) parse_members.simps) (auto split: list.splits if_splits)
    from a s obtain k y where ky: "parse_string_body s0 = Some (k, y)"
      by (subst (asm) parse_members.simps) (auto split: option.splits)
    from a s ky obtain col r1 where c: "skip_ws y = col # r1" "\<not> col \<noteq> 0x3A"
      and g: "\<not> \<not> length (skip_ws r1) < length s"
      by (subst (asm) parse_members.simps) (auto split: list.splits if_splits)
    from a s ky c g obtain x y3 where xy: "parse_value (skip_ws r1) = Some (x, y3)"
      by (subst (asm) parse_members.simps) (auto split: option.splits)
    have y3: "length y3 < length (skip_ws r1)"
      using 4(1) [OF s ky refl c g] xy by blast
    from a s ky c g xy obtain d r4 where d: "skip_ws y3 = d # r4"
      by (subst (asm) parse_members.simps) (auto split: list.splits)
    have r4: "length r4 < length s" using skip_ws_Cons_length [OF d] y3 g by simp
    show "length r < length s"
    proof (cases "d = 0x2C")
      case True
      then have "parse_members (skip_ws r4) (AList.update k x acc) = Some (v, r)"
        using a s ky c g xy d r4 by (subst (asm) parse_members.simps) simp
      then have "length r < length (skip_ws r4)"
        using 4(2) [OF s ky refl c g xy refl d True r4] by blast
      then show ?thesis using skip_ws_length [of r4] r4 by simp
    next
      case False
      then have "r = r4"
        using a s ky c g xy d by (subst (asm) parse_members.simps) (auto split: if_splits)
      then show ?thesis using r4 by simp
    qed
  qed
qed


text \<open>
  The length tests in \<open>parse_elements\<close> and \<open>parse_members\<close> always hold: the two
  functions are the recursive descent without them.
\<close>

lemma parse_elements_unguarded:
  "parse_elements s acc =
     (case parse_value s of
        None \<Rightarrow> None
      | Some (v, r) \<Rightarrow>
          (case skip_ws r of
             [] \<Rightarrow> None
           | d # r' \<Rightarrow>
               if d = 0x2C then parse_elements (skip_ws r') (acc @ [v])
               else if d = 0x5D then Some (JArray (acc @ [v]), r')
               else None))"
proof (cases "parse_value s")
  case None
  then show ?thesis by (subst parse_elements.simps) simp
next
  case (Some vr)
  obtain v r where vr: "vr = (v, r)" by (cases vr)
  have r: "length r < length s" using parse_shrinks(1) [of s] Some vr by blast
  show ?thesis
  proof (cases "skip_ws r")
    case Nil
    then show ?thesis using Some vr by (subst parse_elements.simps) simp
  next
    case (Cons d r')
    then have "length r' < length s" using skip_ws_Cons_length [OF Cons] r by simp
    then show ?thesis using Some vr Cons by (subst parse_elements.simps) simp
  qed
qed

lemma parse_members_unguarded:
  "parse_members s acc =
     (case s of
        [] \<Rightarrow> None
      | q # s1 \<Rightarrow>
          if q \<noteq> 0x22 then None
          else
            (case parse_string_body s1 of
               None \<Rightarrow> None
             | Some (k, r) \<Rightarrow>
                 (case skip_ws r of
                    [] \<Rightarrow> None
                  | col # r1 \<Rightarrow>
                      if col \<noteq> 0x3A then None
                      else
                        (case parse_value (skip_ws r1) of
                           None \<Rightarrow> None
                         | Some (v, r3) \<Rightarrow>
                             (case skip_ws r3 of
                                [] \<Rightarrow> None
                              | d # r4 \<Rightarrow>
                                  if d = 0x2C
                                    then parse_members (skip_ws r4) (AList.update k v acc)
                                  else if d = 0x7D
                                    then Some (JObject (AList.update k v acc), r4)
                                  else None)))))"
proof (cases s)
  case Nil
  then show ?thesis by (subst parse_members.simps) simp
next
  case (Cons q s1)
  show ?thesis
  proof (cases "parse_string_body s1")
    case None
    then show ?thesis using Cons by (subst parse_members.simps) simp
  next
    case (Some kr)
    obtain k r where kr: "kr = (k, r)" by (cases kr)
    have r: "length r < length s1"
      using parse_string_body_length [of s1 k r] Some kr by simp
    show ?thesis
    proof (cases "skip_ws r")
      case Nil
      then show ?thesis using Cons Some kr by (subst parse_members.simps) simp
    next
      case colon: (Cons col r1)
      have g1: "length (skip_ws r1) < length s"
        using skip_ws_Cons_length [OF colon] skip_ws_length [of r1] r Cons by simp
      show ?thesis
      proof (cases "parse_value (skip_ws r1)")
        case None
        then show ?thesis
          using Cons Some kr colon g1 by (subst parse_members.simps) simp
      next
        case val: (Some vr)
        obtain v r3 where vr: "vr = (v, r3)" by (cases vr)
        have r3: "length r3 < length (skip_ws r1)"
          using parse_shrinks(1) [of "skip_ws r1"] val vr by blast
        show ?thesis
        proof (cases "skip_ws r3")
          case Nil
          then show ?thesis
            using Cons Some kr colon g1 val vr by (subst parse_members.simps) simp
        next
          case next_char: (Cons d r4)
          have g2: "length r4 < length s"
            using skip_ws_Cons_length [OF next_char] r3 g1 by simp
          show ?thesis
            using Cons Some kr colon g1 val vr next_char g2
            by (subst parse_members.simps) simp
        qed
      qed
    qed
  qed
qed

text \<open>Two strings as they are written.\<close>

lemma stored_text_example:
  \<open>JSON_stringify (library_json [typo_fixed_record]) =
     js ''[{"id":"2025-01-01T10:00:00.000Z","title":"One","sourceText":"Sample lesson text","infographicHtml":"<h1>One</h1>","analysisLens":"General Summary","customDirectives":"","visualTheme":"Modern Scholar","createdAt":"2025-01-01T10:00:00.001Z","refinementHistory":["fix typo"]}]''\<close>
  by (simp add: library_json_def entry_json_def typo_fixed_record_def js_def QuoteJSONString_def
      quote_unit_def is_lead_def is_trail_def)

lemma quote_example:
  "QuoteJSONString (js ''a'' @ [0x22, 0x0A, 0x01, 0xD83D, 0xDE00, 0xDC00, 0x5D0])
     = [0x22] @ js ''a'' @ [0x5C, 0x22, 0x5C] @ js ''n'' @ [0x5C] @ js ''u0001'' @ [0xD83D, 0xDE00, 0x5C]
       @ js ''udc00'' @ [0x5D0, 0x22]"
  by (simp add: js_def QuoteJSONString_def quote_unit_def is_lead_def is_trail_def
      UnicodeEscape_def hex_digit_def)

section \<open>Facts about the stored library\<close>

lemma strings_round_trip: "sequence (map (string_of_json \<circ> JString) hs) = Some hs"
  by (induction hs) simp_all

lemma VisualTheme_round_trip: "VisualTheme_of (VisualTheme_text th) = Some th"
  by (cases th) (simp_all add: VisualTheme_of_def js_def)

text \<open>The typed reading of a record's object is the record.\<close>

lemma entry_round_trip: "entry_of_json (entry_json e) = Some e"
  by (simp add: entry_of_json_def entry_json_def string_field_def strings_field_def js_def
      strings_round_trip VisualTheme_round_trip [unfolded js_def])

lemma library_round_trip: "library_of_json (library_json lib) = Some lib"
proof -
  have "sequence (map (entry_of_json \<circ> entry_json) lib) = Some lib"
    by (induction lib) (simp_all add: entry_round_trip)
  then show ?thesis
    by (simp add: library_of_json_def library_json_def)
qed

lemma plain_entry_json: "plain (entry_json e)"
  by (simp add: entry_json_def js_def)

lemma plain_library_json: "plain (library_json lib)"
  by (simp add: library_json_def plain_entry_json)

lemma stringify_library_not_empty: "JSON_stringify (library_json lib) \<noteq> []"
  by (simp add: library_json_def)

text \<open>What is written for a library is read back as that library.\<close>

lemma stored_library_read_back:
  "Option.bind (JSON_parse (JSON_stringify (library_json lib))) library_of_json = Some lib"
  by (simp add: JSON_parse_stringify plain_library_json library_round_trip)

section \<open>The claims\<close>

text \<open>
  C3. When the request of \<open>handleGenerate\<close> was sent and the response's text is
  \<open>undefined\<close> or empty, the user is shown the message about an empty response, the
  library in memory and the stored library are as before, the current record is as
  before (so no record is created and none is changed), and the loading flag is off.
\<close>

theorem empty_response_reported:
  assumes "truthy (textToAnalyze_of c isRefinement textOverride) = Some textToAnalyze"
    and "response env = Resolved text"
    and "truthy text = None"
  shows "alerts (handleGenerate c isRefinement textOverride env s)
           = alerts s @ [empty_response_message]
       \<and> library (handleGenerate c isRefinement textOverride env s) = library s
       \<and> currentAnalysis (handleGenerate c isRefinement textOverride env s) = currentAnalysis s
       \<and> storage (handleGenerate c isRefinement textOverride env s) = storage s
       \<and> isLoading (handleGenerate c isRefinement textOverride env s) = False"
  using assms
  by (simp add: handleGenerate_def Let_def generate_finally_def generate_catch_def
      empty_response_message_def)

theorem empty_response_reported_witness:
  "truthy (textToAnalyze_of lesson_typed False None) = Some (js ''Sample lesson text'')
   \<and> truthy (Some []) = None
   \<and> alerts (step (Generate (env_of (Resolved (Some [])) (js ''2025-01-01T00:00:00.000Z''))) lesson_typed)
       = [empty_response_message]
   \<and> library (step (Generate (env_of (Resolved (Some [])) (js ''2025-01-01T00:00:00.000Z''))) lesson_typed)
       = []
   \<and> storage (step (Generate (env_of (Resolved (Some [])) (js ''2025-01-01T00:00:00.000Z''))) lesson_typed)
       = None
   \<and> isLoading (step (Generate (env_of (Resolved (Some [])) (js ''2025-01-01T00:00:00.000Z''))) lesson_typed)
       = False"
  using empty_response_reported [of lesson_typed False None "js ''Sample lesson text''"
      "env_of (Resolved (Some [])) (js ''2025-01-01T00:00:00.000Z'')" "Some []" lesson_typed]
  by (simp add: lesson_typed_def initial_app_def textToAnalyze_of_def truthy_def)

text \<open>
  C4. The claim as stated fails for a file of a supported type that the \<open>FileReader\<close>
  cannot read: \<open>fileToBase64\<close> rejects, the \<open>catch\<close> of \<open>handleFileSelect\<close>
  reports it, and no request is sent, whatever the model would have answered.
\<close>

theorem supported_file_unread_counterexample:
  "file_type unreadable_mp3 \<in> set supportedTypes
   \<and> requests
        (handleFileSelect (Some unreadable_mp3) (Resolved (Some (js ''Sample lesson text'')))
           (env_of (Resolved (Some (js ''<h1>One</h1>''))) (js ''2025-01-01T10:00:00.000Z''))
           (initial_app None)) = []"
  by (simp add: unreadable_mp3_def supportedTypes_def js_def handleFileSelect_def
      fileToBase64_def Let_def transcribe_catch_def initial_app_def)

text \<open>
  What \<open>result.split(',')[1]\<close> is for a data URL, the transcription request as the
  first thing sent, and the run in which the file cannot be read.
\<close>

lemma split_comma_1_data_url:
  assumes "0x2C \<notin> set header" and "0x2C \<notin> set payload"
  shows "split_comma_1 (header @ [0x2C] @ payload) = Some payload"
proof -
  have "dropWhile (\<lambda>c. c \<noteq> 0x2C) (header @ [0x2C] @ payload) = 0x2C # payload"
    using assms(1) by (induction header) auto
  moreover have "takeWhile (\<lambda>c. c \<noteq> 0x2C) payload = payload"
    using assms(2) by (induction payload) auto
  ultimately show ?thesis by (simp add: split_comma_1_def)
qed

lemma handleFileSelect_requests_prefix:
  assumes "file_type f \<in> set supportedTypes" and "readAsDataURL f = Inr result"
  shows "prefix (requests s @ [transcribe_request f (split_comma_1 result)])
           (requests (handleFileSelect (Some f) transcribed env s))"
proof (cases transcribed)
  case (Rejected e)
  with assms show ?thesis
    by (simp add: handleFileSelect_def fileToBase64_def Let_def transcribe_catch_def)
next
  case (Resolved transcription)
  show ?thesis
  proof (cases "truthy (textToAnalyze_of s False transcription)")
    case None
    with assms Resolved show ?thesis
      by (simp add: handleFileSelect_def fileToBase64_def Let_def handleGenerate_no_text)
  next
    case (Some t')
    with assms Resolved show ?thesis
      by (simp add: handleFileSelect_def fileToBase64_def Let_def handleGenerate_sent(1))
  qed
qed

lemma handleFileSelect_unread:
  assumes "file_type f \<in> set supportedTypes" and "readAsDataURL f = Inl error"
  shows "handleFileSelect (Some f) transcribed env s
         = s\<lparr>loadingQuote := js ''Transcribing your audio, one moment...'',
              console := console s @ [js ''Error transcribing audio:''],
              alerts := alerts s @
                [js ''An error occurred during transcription or analysis: '' @
                 (case message error of
                    None \<Rightarrow> js ''Please try again.''
                  | Some m \<Rightarrow> if m = [] then js ''Please try again.'' else m)],
              isLoading := False\<rparr>"
  using assms
  by (simp add: handleFileSelect_def fileToBase64_def Let_def transcribe_catch_def or_else_def
      truthy_def split: option.splits)

text \<open>
  C4, amended. For a file of a supported type that the \<open>FileReader\<close> reads,
  \<open>handleFileSelect\<close> sends the transcription request before anything else: the model
  name, one user turn with the instruction and the inline data, which are the file's type
  and what follows the comma of its data URL. When the read fails, the error is logged
  and shown, the loading flag is cleared, and nothing else changes: no request, and the
  library and the current record as before. For a file of any other type it shows the
  message about the unsupported type and changes nothing else. A run of
  \<open>handleGenerate\<close> that finds no text to analyse shows its message and changes
  nothing else either.
\<close>

theorem validation_gates:
  "(file_type f \<in> set supportedTypes \<and> readAsDataURL f = Inr result \<longrightarrow>
      prefix
        (requests s @
         [\<lparr>model = js ''gemini-2.5-pro'',
           contents =
             [\<lparr>role = js ''user'',
               parts =
                 [text_part (js ''Please transcribe the following audio recording into clean, coherent text. Remove any filler words, stutters, or false starts. The output should be a single block of text representing the spoken content.''),
                  inlineData (file_type f)
                    (case dropWhile (\<lambda>c. c \<noteq> 0x2C) result of
                       [] \<Rightarrow> None
                     | comma # rest \<Rightarrow> Some (takeWhile (\<lambda>c. c \<noteq> 0x2C) rest))]\<rparr>]\<rparr>])
        (requests (handleFileSelect (Some f) transcribed env s)))
   \<and> (file_type f \<in> set supportedTypes
      \<and> readAsDataURL f = Inr (header @ [0x2C] @ payload)
      \<and> 0x2C \<notin> set header \<and> 0x2C \<notin> set payload \<longrightarrow>
      (\<exists>instruction later.
         requests (handleFileSelect (Some f) transcribed env s)
           = requests s @
             \<lparr>model = js ''gemini-2.5-pro'',
              contents =
                [\<lparr>role = js ''user'',
                  parts = [text_part instruction, inlineData (file_type f) (Some payload)]\<rparr>]\<rparr>
             # later))
   \<and> (file_type f \<in> set supportedTypes \<and> readAsDataURL f = Inl error \<longrightarrow>
      handleFileSelect (Some f) transcribed env s
        = s\<lparr>loadingQuote := js ''Transcribing your audio, one moment...'',
             console := console s @ [js ''Error transcribing audio:''],
             alerts := alerts s @
               [js ''An error occurred during transcription or analysis: '' @
                (case message error of
                   None \<Rightarrow> js ''Please try again.''
                 | Some m \<Rightarrow> if m = [] then js ''Please try again.'' else m)],
             isLoading := False\<rparr>)
   \<and> (file_type f \<notin> set supportedTypes \<longrightarrow>
      handleFileSelect (Some f) transcribed env s
        = s\<lparr>alerts := alerts s @
              [js ''Unsupported file type: '' @ file_type f @
               js ''. Please upload an MP3 or M4A file.'']\<rparr>)
   \<and> (truthy (textToAnalyze_of c isRefinement textOverride) = None \<longrightarrow>
      handleGenerate c isRefinement textOverride env s
        = s\<lparr>alerts := alerts s @ [js ''Please provide some text to analyze.'']\<rparr>)"
proof (intro conjI impI)
  assume a: "file_type f \<in> set supportedTypes \<and> readAsDataURL f = Inr result"
  then show "prefix
        (requests s @
         [\<lparr>model = js ''gemini-2.5-pro'',
           contents =
             [\<lparr>role = js ''user'',
               parts =
                 [text_part (js ''Please transcribe the following audio recording into clean, coherent text. Remove any filler words, stutters, or false starts. The output should be a single block of text representing the spoken content.''),
                  inlineData (file_type f)
                    (case dropWhile (\<lambda>c. c \<noteq> 0x2C) result of
                       [] \<Rightarrow> None
                     | comma # rest \<Rightarrow> Some (takeWhile (\<lambda>c. c \<noteq> 0x2C) rest))]\<rparr>]\<rparr>])
        (requests (handleFileSelect (Some f) transcribed env s))"
    using handleFileSelect_requests_prefix [of f result s transcribed env]
    by (simp add: transcribe_request_def split_comma_1_def)
next
  assume a: "file_type f \<in> set supportedTypes
      \<and> readAsDataURL f = Inr (header @ [0x2C] @ payload)
      \<and> 0x2C \<notin> set header \<and> 0x2C \<notin> set payload"
  then have "prefix (requests s @ [transcribe_request f (Some payload)])
      (requests (handleFileSelect (Some f) transcribed env s))"
    using handleFileSelect_requests_prefix [of f "header @ [0x2C] @ payload" s transcribed env]
      split_comma_1_data_url [of header payload]
    by simp
  then obtain later where "requests (handleFileSelect (Some f) transcribed env s)
      = (requests s @ [transcribe_request f (Some payload)]) @ later"
    by (auto simp: prefix_def)
  then show "\<exists>instruction later.
         requests (handleFileSelect (Some f) transcribed env s)
           = requests s @
             \<lparr>model = js ''gemini-2.5-pro'',
              contents =
                [\<lparr>role = js ''user'',
                  parts = [text_part instruction, inlineData (file_type f) (Some payload)]\<rparr>]\<rparr>
             # later"
    by (simp add: transcribe_request_def)
next
  assume "file_type f \<in> set supportedTypes \<and> readAsDataURL f = Inl error"
  then show "handleFileSelect (Some f) transcribed env s
        = s\<lparr>loadingQuote := js ''Transcribing your audio, one moment...'',
             console := console s @ [js ''Error transcribing audio:''],
             alerts := alerts s @
               [js ''An error occurred during transcription or analysis: '' @
                (case message error of
                   None \<Rightarrow> js ''Please try again.''
                 | Some m \<Rightarrow> if m = [] then js ''Please try again.'' else m)],
             isLoading := False\<rparr>"
    using handleFileSelect_unread [of f error transcribed env s] by simp
next
  assume "file_type f \<notin> set supportedTypes"
  then show "handleFileSelect (Some f) transcribed env s
        = s\<lparr>alerts := alerts s @
              [js ''Unsupported file type: '' @ file_type f @
               js ''. Please upload an MP3 or M4A file.'']\<rparr>"
    by (simp add: handleFileSelect_def)
next
  assume "truthy (textToAnalyze_of c isRefinement textOverride) = None"
  then show "handleGenerate c isRefinement textOverride env s
        = s\<lparr>alerts := alerts s @ [js ''Please provide some text to analyze.'']\<rparr>"
    by (simp add: handleGenerate_no_text)
qed

theorem validation_gates_witness:
  "file_type readable_mp3 \<in> set supportedTypes
   \<and> readAsDataURL readable_mp3 = Inr (js ''data:audio/mpeg;base64'' @ [0x2C] @ js ''SUQz'')
   \<and> 0x2C \<notin> set (js ''data:audio/mpeg;base64'') \<and> 0x2C \<notin> set (js ''SUQz'')
   \<and> (\<exists>instruction later.
        requests (handleFileSelect (Some readable_mp3) (Rejected (JsError None))
           (env_of (Resolved None) []) (initial_app None))
        = \<lparr>model = js ''gemini-2.5-pro'',
           contents =
             [\<lparr>role = js ''user'',
               parts = [text_part instruction,
                        inlineData (js ''audio/mpeg'') (Some (js ''SUQz''))]\<rparr>]\<rparr>
          # later)
   \<and> file_type unreadable_mp3 \<in> set supportedTypes
   \<and> readAsDataURL unreadable_mp3 = Inl (JsError (Some (js ''The file could not be read.'')))
   \<and> handleFileSelect (Some unreadable_mp3) (Rejected (JsError None)) (env_of (Resolved None) [])
         (initial_app None)
       = (initial_app None)
           \<lparr>loadingQuote := js ''Transcribing your audio, one moment...'',
            console := [js ''Error transcribing audio:''],
            alerts := [js ''An error occurred during transcription or analysis: The file could not be read.'']\<rparr>
   \<and> file_type text_file \<notin> set supportedTypes
   \<and> handleFileSelect (Some text_file) (Rejected (JsError None)) (env_of (Resolved None) [])
         (initial_app None)
       = (initial_app None)
           \<lparr>alerts := [js ''Unsupported file type: text/plain. Please upload an MP3 or M4A file.'']\<rparr>
   \<and> truthy (textToAnalyze_of (initial_app None) False None) = None
   \<and> handleGenerate (initial_app None) False None (env_of (Resolved None) []) (initial_app None)
       = (initial_app None)\<lparr>alerts := [js ''Please provide some text to analyze.'']\<rparr>"
  using validation_gates [where f = readable_mp3 and s = "initial_app None"
      and header = "js ''data:audio/mpeg;base64''" and payload = "js ''SUQz''"
      and transcribed = "Rejected (JsError None)" and env = "env_of (Resolved None) []"
      and c = "initial_app None" and isRefinement = False and textOverride = None]
    validation_gates [where f = unreadable_mp3 and s = "initial_app None"
      and error = "JsError (Some (js ''The file could not be read.''))"
      and transcribed = "Rejected (JsError None)" and env = "env_of (Resolved None) []"
      and c = "initial_app None" and isRefinement = False and textOverride = None]
    validation_gates [where f = text_file and s = "initial_app None"
      and transcribed = "Rejected (JsError None)" and env = "env_of (Resolved None) []"
      and c = "initial_app None" and isRefinement = False and textOverride = None]
  by (simp add: readable_mp3_def unreadable_mp3_def text_file_def supportedTypes_def js_def
      initial_app_def textToAnalyze_of_def truthy_def)

text \<open>The record created depends on the render through the three form fields only.\<close>

lemma new_entry_forms:
  "analysisLens_form c' = analysisLens_form c \<Longrightarrow>
   customDirectives_form c' = customDirectives_form c \<Longrightarrow>
   visualTheme_form c' = visualTheme_form c \<Longrightarrow>
   new_entry c' = new_entry c"
  by (simp add: new_entry_def fun_eq_iff)

text \<open>Generations from the page, one after the other, with the form left as it is.\<close>

lemma generations_stack:
  assumes "truthy (sourceText_form s) = Some lesson"
    and "map response envs = map (\<lambda>h. Resolved (Some h)) htmls"
    and "[] \<notin> set htmls"
  shows "library (run (map Generate envs) s)
           = rev (map2 (new_entry s lesson) htmls envs) @ library s"
  using assms
proof (induction envs arbitrary: s htmls)
  case Nil
  then show ?case by simp
next
  case (Cons env envs)
  from Cons.prems(2) obtain h hs where htmls: "htmls = h # hs"
    and h: "response env = Resolved (Some h)"
    and hs: "map response envs = map (\<lambda>h. Resolved (Some h)) hs"
    by (cases htmls) auto
  from Cons.prems(3) htmls have h_ne: "truthy (Some h) = Some h" and hs_ne: "[] \<notin> set hs"
    by (auto simp: truthy_def)
  let ?s' = "handleGenerate s False None env s"
  have tx: "truthy (textToAnalyze_of s False None) = Some lesson"
    using Cons.prems(1) by (simp add: textToAnalyze_of_def)
  have lib: "library ?s' = new_entry s lesson h env # library s"
    using handleGenerate_created(1) [OF tx h h_ne] .
  have forms: "sourceText_form ?s' = sourceText_form s" "new_entry ?s' = new_entry s"
    using handleGenerate_sent [OF tx, of env s] new_entry_forms [of ?s' s] by simp_all
  have "library (run (map Generate envs) ?s')
          = rev (map2 (new_entry ?s' lesson) hs envs) @ library ?s'"
    using Cons.IH [of ?s' hs] Cons.prems(1) hs hs_ne forms(1) by simp
  then have "library (run (map Generate envs) ?s')
          = rev (map2 (new_entry s lesson) hs envs) @ new_entry s lesson h env # library s"
    by (simp only: forms(2) lib)
  then show ?case by (simp add: htmls)
qed





section \<open>What the events do to the records\<close>

lemma typo_fixed_fields [simp]:
  "currentAnalysis typo_fixed = Some typo_fixed_record"
  "library typo_fixed = [typo_fixed_record]"
  "refineDirectives typo_fixed = js ''add a table''"
  "refinementHistory typo_fixed_record = [js ''fix typo'']"
  "sourceText typo_fixed_record = js ''Sample lesson text''"
  by (simp_all add: typo_fixed_def typo_fixed_record_def initial_app_def)

lemma refined_entry_fields [simp]:
  "id' (refined_entry cur html d) = id' cur"
  "sourceText (refined_entry cur html d) = sourceText cur"
  "createdAt (refined_entry cur html d) = createdAt cur"
  "refinementHistory (refined_entry cur html d) = refinementHistory cur @ [d]"
  "infographicHtml (refined_entry cur html d) = html"
  "title (refined_entry cur html d) = extract_title html"
  by (simp_all add: refined_entry_def)

lemma typo_fixed_record_id [simp]:
  "id' typo_fixed_record = js ''2025-01-01T10:00:00.000Z''"
  by (simp add: typo_fixed_record_def)

text \<open>A run of \<open>handleGenerate\<close> is its first half followed by its second.\<close>

lemma handleGenerate_phases:
  "handleGenerate c isRefinement textOverride env s
     = handleGenerate_resume c isRefinement textOverride env
         (handleGenerate_start c isRefinement textOverride env s)"
  by (cases "truthy (textToAnalyze_of c isRefinement textOverride)"; cases isRefinement;
      cases "response env")
    (simp_all add: handleGenerate_def handleGenerate_start_def handleGenerate_resume_def Let_def
      split: option.splits)

text \<open>\<open>library.map\<close> keeps the length and, with the id kept, the ids.\<close>

lemma replace_by_id_length [simp]: "length (replace_by_id cur upd lib) = length lib"
  by (simp add: replace_by_id_def)

lemma replace_by_id_nth:
  "i < length lib \<Longrightarrow>
   replace_by_id cur upd lib ! i = (if id' (lib ! i) = id' cur then upd else lib ! i)"
  by (simp add: replace_by_id_def)

lemma replace_by_id_ids:
  "id' upd = id' cur \<Longrightarrow> map id' (replace_by_id cur upd lib) = map id' lib"
  by (induction lib) (simp_all add: replace_by_id_def)

text \<open>
  What a run of \<open>handleGenerate\<close> leaves in the library and on the screen: what was
  there, or a new record in front of the library of its render, or the refined record
  in the place of the entries with its id.
\<close>

lemma handleGenerate_effect:
  "(library (handleGenerate c isRefinement textOverride env s) = library s
      \<and> currentAnalysis (handleGenerate c isRefinement textOverride env s) = currentAnalysis s)
   \<or> (\<exists>lesson html. (isRefinement \<longrightarrow> currentAnalysis c = None)
        \<and> library (handleGenerate c isRefinement textOverride env s)
            = new_entry c lesson html env # library c
        \<and> currentAnalysis (handleGenerate c isRefinement textOverride env s)
            = Some (new_entry c lesson html env))
   \<or> (\<exists>cur html. isRefinement \<and> currentAnalysis c = Some cur
        \<and> library (handleGenerate c isRefinement textOverride env s)
            = replace_by_id cur (refined_entry cur html (refineDirectives c)) (library c)
        \<and> currentAnalysis (handleGenerate c isRefinement textOverride env s)
            = Some (refined_entry cur html (refineDirectives c)))"
proof (cases "truthy (textToAnalyze_of c isRefinement textOverride)")
  case None
  then show ?thesis by (simp add: handleGenerate_no_text)
next
  case (Some lesson)
  show ?thesis
  proof (cases "response env")
    case (Rejected e)
    then show ?thesis
      using handleGenerate_failed(1,2) [OF Some, of env e s] by simp
  next
    case (Resolved t)
    show ?thesis
    proof (cases "truthy t")
      case None
      then show ?thesis
        using handleGenerate_failed(1,2) [OF Some, of env undefined s] Resolved by simp
    next
      case html: (Some html)
      show ?thesis
        using Some Resolved html
        by (cases isRefinement; cases "currentAnalysis c")
          (auto simp: handleGenerate_def Let_def generate_finally_def)
    qed
  qed
qed

lemma new_entry_id [simp]: "id' (new_entry c lesson html env) = now_id env"
  by (simp add: new_entry_def)

lemma handleFileSelect_effect:
  "(library (handleFileSelect fl transcribed env s) = library s
      \<and> currentAnalysis (handleFileSelect fl transcribed env s) = currentAnalysis s)
   \<or> (\<exists>lesson html.
        library (handleFileSelect fl transcribed env s) = new_entry s lesson html env # library s
        \<and> currentAnalysis (handleFileSelect fl transcribed env s)
            = Some (new_entry s lesson html env))"
proof (cases fl)
  case None
  then show ?thesis by (simp add: handleFileSelect_def)
next
  case (Some f)
  show ?thesis
  proof (cases "file_type f \<in> set supportedTypes")
    case False
    then show ?thesis using Some by (simp add: handleFileSelect_def)
  next
    case True
    show ?thesis
    proof (cases "readAsDataURL f")
      case (Inl e)
      then show ?thesis
        using Some True
        by (simp add: handleFileSelect_def fileToBase64_def Let_def transcribe_catch_def)
    next
      case (Inr result)
      show ?thesis
      proof (cases transcribed)
        case (Rejected e)
        then show ?thesis
          using Some True Inr
          by (simp add: handleFileSelect_def fileToBase64_def Let_def transcribe_catch_def)
      next
        case (Resolved transcription)
        then show ?thesis
          using Some True Inr
            handleGenerate_effect [of s False transcription env
              "s\<lparr>isLoading := True,
                 loadingQuote := js ''Transcribing your audio, one moment...'',
                 requests := requests s @ [transcribe_request f (split_comma_1 result)],
                 sourceText_form := transcription\<rparr>"]
          by (auto simp: handleFileSelect_def fileToBase64_def Let_def)
      qed
    qed
  qed
qed

text \<open>The same for every event.\<close>

lemma step_effect:
  "(library (step ev s) = library s
      \<and> (currentAnalysis (step ev s) = currentAnalysis s \<or> currentAnalysis (step ev s) = None
         \<or> (\<exists>i<length (library s). currentAnalysis (step ev s) = Some (library s ! i))))
   \<or> (\<exists>e. library (step ev s) = e # library s \<and> currentAnalysis (step ev s) = Some e
        \<and> (creates_fresh ev s \<longrightarrow> id' e \<notin> id' ` set (library s)))
   \<or> (\<exists>cur upd. currentAnalysis s = Some cur \<and> id' upd = id' cur
        \<and> sourceText upd = sourceText cur
        \<and> prefix (refinementHistory cur) (refinementHistory upd)
        \<and> library (step ev s) = replace_by_id cur upd (library s)
        \<and> currentAnalysis (step ev s) = Some upd)"
proof (cases ev)
  case (Generate env)
  then show ?thesis using handleGenerate_effect [of s False None env s] by auto
next
  case (SubmitRefine env)
  have "truthy (textToAnalyze_of s True None) = None" if "currentAnalysis s = None"
    using that by (simp add: textToAnalyze_of_def truthy_def)
  then have none: "handleGenerate s True None env s
      = s\<lparr>alerts := alerts s @ [js ''Please provide some text to analyze.'']\<rparr>"
    if "currentAnalysis s = None"
    using that by (simp add: handleGenerate_no_text)
  show ?thesis
  proof (cases "currentAnalysis s")
    case None
    then show ?thesis using SubmitRefine none by simp
  next
    case (Some cur)
    from handleGenerate_effect [of s True None env s] Some
    consider "library (handleGenerate s True None env s) = library s"
        "currentAnalysis (handleGenerate s True None env s) = currentAnalysis s"
      | html where "library (handleGenerate s True None env s)
            = replace_by_id cur (refined_entry cur html (refineDirectives s)) (library s)"
          "currentAnalysis (handleGenerate s True None env s)
            = Some (refined_entry cur html (refineDirectives s))"
      by auto
    then show ?thesis
    proof cases
      case 1
      then show ?thesis using SubmitRefine by simp
    next
      case 2
      then show ?thesis
        using SubmitRefine Some
        by (intro disjI2 exI [of _ cur]
            exI [of _ "refined_entry cur html (refineDirectives s)"]) simp
    qed
  qed
next
  case (FileSelect fl transcribed env)
  then show ?thesis using handleFileSelect_effect [of fl transcribed env s] by auto
next
  case (SaveChanges innerHTML throws)
  show ?thesis
  proof (cases "currentAnalysis s")
    case None
    then show ?thesis using SaveChanges by (simp add: handleSaveChanges_def)
  next
    case (Some cur)
    show ?thesis
    proof (cases innerHTML)
      case None
      then show ?thesis using SaveChanges Some by (simp add: handleSaveChanges_def)
    next
      case html: (Some html)
      have "library (step ev s) = replace_by_id cur (cur\<lparr>infographicHtml := html\<rparr>) (library s)"
        "currentAnalysis (step ev s) = Some (cur\<lparr>infographicHtml := html\<rparr>)"
        using SaveChanges Some html by (simp_all add: handleSaveChanges_def Let_def)
      then show ?thesis
        using Some
        by (intro disjI2 exI [of _ cur] exI [of _ "cur\<lparr>infographicHtml := html\<rparr>"]) simp
    qed
  qed
next
  case Download
  then show ?thesis by (simp add: handleDownloadHtml_def split: option.splits)
next
  case (LoadAnalysis i)
  then show ?thesis by (auto simp add: loadAnalysis_def)
next
  case NewAnalysis
  then show ?thesis by (simp add: startNewAnalysis_def)
qed simp_all

lemma coherent_entry:
  "coherent s \<Longrightarrow> currentAnalysis s = Some cur \<Longrightarrow> i < length (library s) \<Longrightarrow>
   id' (library s ! i) = id' cur \<Longrightarrow> library s ! i = cur"
  by (simp add: coherent_def list_all_length)

text \<open>Unique ids stay unique when the clock gives a new id to each new record.\<close>

lemma unique_ids_step:
  assumes "unique_ids s" and "creates_fresh ev s"
  shows "unique_ids (step ev s)"
proof -
  from assms(1) have d: "distinct (map id' (library s))" and c: "coherent s"
    by (simp_all add: unique_ids_def)
  from step_effect [of ev s]
  consider
      (same) "library (step ev s) = library s" "currentAnalysis (step ev s) = currentAnalysis s"
    | (none) "library (step ev s) = library s" "currentAnalysis (step ev s) = None"
    | (load) i where "library (step ev s) = library s" "i < length (library s)"
        "currentAnalysis (step ev s) = Some (library s ! i)"
    | (new) e where "library (step ev s) = e # library s" "currentAnalysis (step ev s) = Some e"
        "creates_fresh ev s \<longrightarrow> id' e \<notin> id' ` set (library s)"
    | (upd) cur upd where "currentAnalysis s = Some cur" "id' upd = id' cur"
        "library (step ev s) = replace_by_id cur upd (library s)"
        "currentAnalysis (step ev s) = Some upd"
    by (elim disjE conjE exE) blast+
  then show ?thesis
  proof cases
    case same
    then show ?thesis
      using d c by (auto simp: unique_ids_def coherent_def split: option.splits)
  next
    case none
    then show ?thesis using d by (simp add: unique_ids_def coherent_def)
  next
    case load
    have "library s ! j = library s ! i"
      if "j < length (library s)" "id' (library s ! j) = id' (library s ! i)" for j
    proof -
      have "j = i"
        using d that load(2) nth_eq_iff_index_eq [of "map id' (library s)" j i] by simp
      then show ?thesis by simp
    qed
    then show ?thesis
      using d load by (simp add: unique_ids_def coherent_def list_all_length)
  next
    case new
    from new(3) assms(2) have "\<forall>x\<in>set (library s). id' x \<noteq> id' e"
      by (metis imageI)
    then show ?thesis
      using d new(1,2) by (auto simp: unique_ids_def coherent_def list_all_iff)
  next
    case upd
    have "distinct (map id' (library (step ev s)))"
      using d upd(2,3) by (simp add: replace_by_id_ids)
    moreover have "coherent (step ev s)"
      using upd by (simp add: coherent_def list_all_length replace_by_id_nth)
    ultimately show ?thesis by (simp add: unique_ids_def)
  qed
qed

lemma unique_ids_initial: "unique_ids (initial_app stored)"
  by (simp add: unique_ids_def coherent_def initial_app_def)

lemma unique_ids_run:
  "unique_ids s \<Longrightarrow> fresh_ids es s \<Longrightarrow> unique_ids (run es s)"
  by (induction es arbitrary: s) (simp_all add: unique_ids_step)

text \<open>The place of an entry after an event: further down by the number of records created.\<close>

lemma entry_step:
  assumes "coherent s" and "i < length (library s)"
  shows "length (library s) \<le> length (library (step ev s))
    \<and> id' (library (step ev s) ! (i + (length (library (step ev s)) - length (library s))))
        = id' (library s ! i)
    \<and> sourceText (library (step ev s) ! (i + (length (library (step ev s)) - length (library s))))
        = sourceText (library s ! i)
    \<and> prefix (refinementHistory (library s ! i))
        (refinementHistory
           (library (step ev s) ! (i + (length (library (step ev s)) - length (library s)))))"
proof -
  from step_effect [of ev s]
  consider "library (step ev s) = library s"
    | e where "library (step ev s) = e # library s"
    | cur upd where "currentAnalysis s = Some cur" "id' upd = id' cur"
        "sourceText upd = sourceText cur"
        "prefix (refinementHistory cur) (refinementHistory upd)"
        "library (step ev s) = replace_by_id cur upd (library s)"
    by blast
  then show ?thesis
  proof cases
    case 1
    then show ?thesis by simp
  next
    case 2
    then show ?thesis by simp
  next
    case 3
    show ?thesis
    proof (cases "id' (library s ! i) = id' cur")
      case True
      then have "library s ! i = cur" using coherent_entry [OF assms(1) 3(1) assms(2)] by simp
      then show ?thesis using 3 assms(2) True by (simp add: replace_by_id_nth)
    next
      case False
      then show ?thesis using 3 assms(2) by (simp add: replace_by_id_nth)
    qed
  qed
qed

text \<open>And after a list of events.\<close>

lemma run_entries:
  assumes "unique_ids s" and "fresh_ids es s" and "i < length (library s)"
  shows "length (library s) \<le> length (library (run es s))
    \<and> id' (library (run es s) ! (i + (length (library (run es s)) - length (library s))))
        = id' (library s ! i)
    \<and> sourceText (library (run es s) ! (i + (length (library (run es s)) - length (library s))))
        = sourceText (library s ! i)
    \<and> prefix (refinementHistory (library s ! i))
        (refinementHistory
           (library (run es s) ! (i + (length (library (run es s)) - length (library s)))))"
  using assms
proof (induction es arbitrary: s i)
  case Nil
  then show ?case by simp
next
  case (Cons e es)
  let ?s1 = "step e s"
  let ?k = "length (library ?s1) - length (library s)"
  from Cons.prems have u1: "unique_ids ?s1" and f1: "fresh_ids es ?s1"
    using unique_ids_step [of s e] by simp_all
  from Cons.prems(1) have "coherent s" by (simp add: unique_ids_def)
  note E = entry_step [OF this Cons.prems(3), of e]
  have 1: "length (library s) \<le> length (library ?s1)"
    "id' (library ?s1 ! (i + ?k)) = id' (library s ! i)"
    "sourceText (library ?s1 ! (i + ?k)) = sourceText (library s ! i)"
    "prefix (refinementHistory (library s ! i)) (refinementHistory (library ?s1 ! (i + ?k)))"
    using E by blast+
  have i1: "i + ?k < length (library ?s1)" using Cons.prems(3) 1(1) by simp
  let ?s2 = "run es ?s1"
  let ?k2 = "length (library ?s2) - length (library ?s1)"
  note H = Cons.IH [OF u1 f1 i1]
  have 2: "length (library ?s1) \<le> length (library ?s2)"
    "id' (library ?s2 ! (i + ?k + ?k2)) = id' (library ?s1 ! (i + ?k))"
    "sourceText (library ?s2 ! (i + ?k + ?k2)) = sourceText (library ?s1 ! (i + ?k))"
    "prefix (refinementHistory (library ?s1 ! (i + ?k)))
       (refinementHistory (library ?s2 ! (i + ?k + ?k2)))"
    using H by blast+
  have k: "i + ?k + ?k2 = i + (length (library ?s2) - length (library s))"
    using 1(1) 2(1) by simp
  have a: "length (library s) \<le> length (library ?s2)"
    using 1(1) 2(1) by (rule le_trans)
  have b: "id' (library ?s2 ! (i + ?k + ?k2)) = id' (library s ! i)"
    by (simp only: 2(2) 1(2))
  have c: "sourceText (library ?s2 ! (i + ?k + ?k2)) = sourceText (library s ! i)"
    by (simp only: 2(3) 1(3))
  have d: "prefix (refinementHistory (library s ! i))
      (refinementHistory (library ?s2 ! (i + ?k + ?k2)))"
    using 1(4) 2(4) by (rule prefix_order.trans)
  show ?case
    unfolding run_Cons using a b c d unfolding k by blast
qed

text \<open>Without the condition on the ids, an entry takes the current record's text at most.\<close>

lemma entry_step_any:
  assumes "i < length (library s)"
  shows "length (library s) \<le> length (library (step ev s))
    \<and> id' (library (step ev s) ! (i + (length (library (step ev s)) - length (library s))))
        = id' (library s ! i)
    \<and> (sourceText (library (step ev s) ! (i + (length (library (step ev s)) - length (library s))))
          = sourceText (library s ! i)
       \<or> (\<exists>cur. currentAnalysis s = Some cur \<and> id' (library s ! i) = id' cur
            \<and> sourceText
                 (library (step ev s) ! (i + (length (library (step ev s)) - length (library s))))
               = sourceText cur))"
proof -
  from step_effect [of ev s]
  consider "library (step ev s) = library s"
    | e where "library (step ev s) = e # library s"
    | cur upd where "currentAnalysis s = Some cur" "id' upd = id' cur"
        "sourceText upd = sourceText cur"
        "library (step ev s) = replace_by_id cur upd (library s)"
    by blast
  then show ?thesis
  proof cases
    case 1
    then show ?thesis by simp
  next
    case 2
    then show ?thesis by simp
  next
    case 3
    then show ?thesis using assms by (simp add: replace_by_id_nth)
  qed
qed

text \<open>What an event that keeps the record does to it and to the requests sent.\<close>

lemma refine_keeps_record:
  assumes "currentAnalysis s = Some cur"
  shows "\<exists>cur' sent. currentAnalysis (handleGenerate s True None env s) = Some cur'
           \<and> sourceText cur' = sourceText cur \<and> id' cur' = id' cur
           \<and> prefix (refinementHistory cur) (refinementHistory cur')
           \<and> requests (handleGenerate s True None env s) = requests s @ sent
           \<and> list_all (\<lambda>r. \<exists>prompt. r = generate_request prompt (sourceText cur)) sent"
proof (cases "sourceText cur = []")
  case True
  then have "truthy (textToAnalyze_of s True None) = None"
    using assms by (simp add: textToAnalyze_of_def truthy_def)
  then show ?thesis
    using assms by (simp add: handleGenerate_no_text)
next
  case False
  then have tx: "truthy (textToAnalyze_of s True None) = Some (sourceText cur)"
    using assms by (simp add: textToAnalyze_of_def truthy_def)
  have sent: "list_all (\<lambda>r. \<exists>prompt. r = generate_request prompt (sourceText cur))
      [generate_request
         (getSystemPrompt (analysisLens_form s) (refineDirectives s) (visualTheme_form s)
            (js ''Refine the previous analysis based on the new directive''))
         (sourceText cur)]"
    by auto
  have cur': "\<exists>cur'. currentAnalysis (handleGenerate s True None env s) = Some cur'
      \<and> sourceText cur' = sourceText cur \<and> id' cur' = id' cur
      \<and> prefix (refinementHistory cur) (refinementHistory cur')"
  proof (cases "response env")
    case (Rejected e)
    then show ?thesis using handleGenerate_failed(2) [OF tx, of env e s] assms by simp
  next
    case (Resolved t)
    show ?thesis
    proof (cases "truthy t")
      case None
      then show ?thesis
        using handleGenerate_failed(2) [OF tx, of env undefined s] Resolved assms by simp
    next
      case (Some html)
      then show ?thesis
        using handleGenerate_refined(2) [OF assms False Resolved Some, of s]
        by (simp add: refined_entry_def)
    qed
  qed
  show ?thesis
    using cur' sent handleGenerate_sent(1) [OF tx, of env s] by auto
qed

lemma step_keeps_record:
  assumes "keeps_record e" and "currentAnalysis s = Some cur"
  shows "\<exists>cur' sent. currentAnalysis (step e s) = Some cur'
           \<and> sourceText cur' = sourceText cur \<and> id' cur' = id' cur
           \<and> prefix (refinementHistory cur) (refinementHistory cur')
           \<and> requests (step e s) = requests s @ sent
           \<and> list_all (\<lambda>r. \<exists>prompt. r = generate_request prompt (sourceText cur)) sent"
proof (cases e)
  case (SubmitRefine env)
  then show ?thesis using refine_keeps_record [OF assms(2), of env] by simp
next
  case (SaveChanges innerHTML throws)
  then show ?thesis
    using assms(2) by (cases innerHTML) (simp_all add: handleSaveChanges_def Let_def)
next
  case Download
  then show ?thesis using assms(2) by (simp add: handleDownloadHtml_def)
qed (use assms in simp_all)

lemma run_keeps_record:
  assumes "list_all keeps_record es" and "currentAnalysis s = Some cur"
  shows "\<exists>cur' sent. currentAnalysis (run es s) = Some cur'
           \<and> sourceText cur' = sourceText cur \<and> id' cur' = id' cur
           \<and> prefix (refinementHistory cur) (refinementHistory cur')
           \<and> requests (run es s) = requests s @ sent
           \<and> list_all (\<lambda>r. \<exists>prompt. r = generate_request prompt (sourceText cur)) sent"
  using assms
proof (induction es arbitrary: s cur)
  case Nil
  then show ?case by simp
next
  case (Cons e es)
  from Cons.prems obtain cur1 sent1 where
    1: "currentAnalysis (step e s) = Some cur1" "sourceText cur1 = sourceText cur"
       "id' cur1 = id' cur" "prefix (refinementHistory cur) (refinementHistory cur1)"
       "requests (step e s) = requests s @ sent1"
       "list_all (\<lambda>r. \<exists>prompt. r = generate_request prompt (sourceText cur)) sent1"
    using step_keeps_record [of e s cur] by auto
  from Cons.prems(1) have "list_all keeps_record es" by simp
  from Cons.IH [OF this 1(1)] obtain cur2 sent2 where
    2: "currentAnalysis (run es (step e s)) = Some cur2" "sourceText cur2 = sourceText cur1"
       "id' cur2 = id' cur1" "prefix (refinementHistory cur1) (refinementHistory cur2)"
       "requests (run es (step e s)) = requests (step e s) @ sent2"
       "list_all (\<lambda>r. \<exists>prompt. r = generate_request prompt (sourceText cur1)) sent2"
    by auto
  have "requests (run (e # es) s) = requests s @ (sent1 @ sent2)"
    using 1(5) 2(5) by simp
  moreover have "list_all (\<lambda>r. \<exists>prompt. r = generate_request prompt (sourceText cur))
      (sent1 @ sent2)"
    using 1(2,6) 2(6) by simp
  moreover have "prefix (refinementHistory cur) (refinementHistory cur2)"
    using 1(4) 2(4) by (rule prefix_order.trans)
  ultimately show ?case
    using 1(2,3) 2(1,2,3) by (intro exI [of _ cur2] exI [of _ "sent1 @ sent2"]) simp
qed

text \<open>The definitions that a run on sample values is evaluated with.\<close>

lemmas evaluation =
  typo_fixed_def typo_fixed_record_def initial_app_def handleGenerate_def Let_def
  textToAnalyze_of_def truthy_def generate_finally_def startNewAnalysis_def replace_by_id_def
  refined_entry_def new_entry_def handleSaveChanges_def add_table_env_def

text \<open>
  C1. The claim as stated fails for a library entry that shares its id with the record on
  the screen. In \<open>same_stamp_twice\<close> the library holds the record made from
  \<open>Another lesson\<close> and, behind it, the record made from \<open>Sample lesson text\<close>,
  under one id. An edit of the first that is saved overwrites the second, whose
  \<open>sourceText\<close> is then \<open>Another lesson\<close>; and a refinement of the second place,
  loaded from the sidebar, sends that text and not the one the second record was made
  from.
\<close>

theorem overwritten_source_text_counterexample:
  "map sourceText (library same_stamp_twice) = [js ''Another lesson'', js ''Sample lesson text'']
   \<and> map sourceText
        (library (step (SaveChanges (Some (js ''<h1>Two!</h1>'')) False) same_stamp_twice))
       = [js ''Another lesson'', js ''Another lesson'']
   \<and> last (parts (hd (contents (last (requests
        (run [SaveChanges (Some (js ''<h1>Two!</h1>'')) False,
              LoadAnalysis 1,
              OpenRefine,
              SetRefineDirectives (js ''add a table''),
              SubmitRefine (env_of (Resolved (Some (js ''<h1>Two</h1><table></table>'')))
                 (js ''2025-01-01T10:10:00.000Z''))]
           same_stamp_twice))))))
       = text_part (js ''Transcript to analyze: \<newline>\<newline>Another lesson'')"
  by (simp add: same_stamp_twice_def lesson_typed_def initial_app_def handleGenerate_def
      Let_def textToAnalyze_of_def truthy_def generate_finally_def startNewAnalysis_def
      replace_by_id_def refined_entry_def new_entry_def handleSaveChanges_def loadAnalysis_def
      generate_request_def js_def)

text \<open>
  C1, amended. A refinement sends one request whose transcript part is the
  \<open>sourceText\<close> of the record on the screen in the render where it was submitted. The
  refined record and the edited record keep the id and the \<open>sourceText\<close>, on the
  screen and in the library, where they take the place of every entry with that id and
  no other. With the operations run one after the other: whatever is done to the record
  on the screen (refinements that succeed or fail, saved edits, in any number and
  order), its \<open>sourceText\<close> stays what it was and every request sent carries it; from
  the creation of the record on, that is the text the record was created from; and while
  no two records share an id, every library entry keeps its order, its id and its
  \<open>sourceText\<close>.
\<close>

theorem refinement_reads_source_text:
  "(currentAnalysis c = Some cur \<and> sourceText cur \<noteq> [] \<longrightarrow>
      requests (handleGenerate c True None env s)
        = requests s @
          [\<lparr>model = js ''gemini-2.5-pro'',
            contents =
              [\<lparr>role = js ''user'',
                parts =
                  [text_part
                     (getSystemPrompt (analysisLens_form c) (refineDirectives c)
                        (visualTheme_form c)
                        (js ''Refine the previous analysis based on the new directive'')),
                   text_part (js ''Transcript to analyze: \<newline>\<newline>'' @ sourceText cur)]\<rparr>]\<rparr>])
   \<and> (currentAnalysis c = Some cur \<and> sourceText cur \<noteq> [] \<and> response env = Resolved t
      \<and> truthy t = Some html \<longrightarrow>
      (\<exists>cur'. currentAnalysis (handleGenerate c True None env s) = Some cur'
         \<and> sourceText cur' = sourceText cur \<and> id' cur' = id' cur
         \<and> library (handleGenerate c True None env s)
             = map (\<lambda>item. if id' item = id' cur then cur' else item) (library c)))
   \<and> (currentAnalysis s = Some cur \<longrightarrow>
      (\<exists>cur'. currentAnalysis (handleSaveChanges (Some edited) throws s) = Some cur'
         \<and> sourceText cur' = sourceText cur \<and> id' cur' = id' cur
         \<and> library (handleSaveChanges (Some edited) throws s)
             = map (\<lambda>item. if id' item = id' cur then cur' else item) (library s)))
   \<and> (currentAnalysis s = Some cur \<and> list_all keeps_record es \<longrightarrow>
      (\<exists>cur' sent. currentAnalysis (run es s) = Some cur'
         \<and> sourceText cur' = sourceText cur
         \<and> requests (run es s) = requests s @ sent
         \<and> list_all
              (\<lambda>r. \<exists>prompt. r =
                 \<lparr>model = js ''gemini-2.5-pro'',
                  contents =
                    [\<lparr>role = js ''user'',
                      parts =
                        [text_part prompt,
                         text_part (js ''Transcript to analyze: \<newline>\<newline>'' @ sourceText cur)]\<rparr>]\<rparr>)
              sent))
   \<and> (truthy (sourceText_form s) = Some lesson \<and> response env = Resolved t
      \<and> truthy t = Some html \<and> list_all keeps_record es \<longrightarrow>
      (\<exists>cur' sent. currentAnalysis (run (Generate env # es) s) = Some cur'
         \<and> sourceText cur' = lesson
         \<and> requests (run (Generate env # es) s) = requests (step (Generate env) s) @ sent
         \<and> list_all
              (\<lambda>r. \<exists>prompt. r =
                 \<lparr>model = js ''gemini-2.5-pro'',
                  contents =
                    [\<lparr>role = js ''user'',
                      parts =
                        [text_part prompt,
                         text_part (js ''Transcript to analyze: \<newline>\<newline>'' @ lesson)]\<rparr>]\<rparr>)
              sent))
   \<and> (unique_ids s \<and> fresh_ids es s \<and> i < length (library s) \<longrightarrow>
      length (library s) \<le> length (library (run es s))
      \<and> id' (library (run es s) ! (i + (length (library (run es s)) - length (library s))))
          = id' (library s ! i)
      \<and> sourceText (library (run es s) ! (i + (length (library (run es s)) - length (library s))))
          = sourceText (library s ! i))"
proof (intro conjI impI)
  assume a: "currentAnalysis c = Some cur \<and> sourceText cur \<noteq> []"
  then have "truthy (textToAnalyze_of c True None) = Some (sourceText cur)"
    by (simp add: textToAnalyze_of_def truthy_def)
  from handleGenerate_sent(1) [OF this, of env s]
  show "requests (handleGenerate c True None env s)
        = requests s @
          [\<lparr>model = js ''gemini-2.5-pro'',
            contents =
              [\<lparr>role = js ''user'',
                parts =
                  [text_part
                     (getSystemPrompt (analysisLens_form c) (refineDirectives c)
                        (visualTheme_form c)
                        (js ''Refine the previous analysis based on the new directive'')),
                   text_part (js ''Transcript to analyze: \<newline>\<newline>'' @ sourceText cur)]\<rparr>]\<rparr>]"
    by (simp add: generate_request_def)
next
  assume "currentAnalysis c = Some cur \<and> sourceText cur \<noteq> [] \<and> response env = Resolved t
      \<and> truthy t = Some html"
  then show "\<exists>cur'. currentAnalysis (handleGenerate c True None env s) = Some cur'
         \<and> sourceText cur' = sourceText cur \<and> id' cur' = id' cur
         \<and> library (handleGenerate c True None env s)
             = map (\<lambda>item. if id' item = id' cur then cur' else item) (library c)"
    using handleGenerate_refined(1) [of c cur env t html s]
      handleGenerate_refined(2) [of c cur env t html s]
    by (simp add: replace_by_id_def refined_entry_def)
next
  assume "currentAnalysis s = Some cur"
  then show "\<exists>cur'. currentAnalysis (handleSaveChanges (Some edited) throws s) = Some cur'
         \<and> sourceText cur' = sourceText cur \<and> id' cur' = id' cur
         \<and> library (handleSaveChanges (Some edited) throws s)
             = map (\<lambda>item. if id' item = id' cur then cur' else item) (library s)"
    by (simp add: handleSaveChanges_def Let_def replace_by_id_def)
next
  assume "currentAnalysis s = Some cur \<and> list_all keeps_record es"
  then obtain cur' sent where
    r: "currentAnalysis (run es s) = Some cur'" "sourceText cur' = sourceText cur"
      "requests (run es s) = requests s @ sent"
      "list_all (\<lambda>r. \<exists>prompt. r = generate_request prompt (sourceText cur)) sent"
    using run_keeps_record [of es s cur] by auto
  from r(4) have "list_all
              (\<lambda>r. \<exists>prompt. r =
                 \<lparr>model = js ''gemini-2.5-pro'',
                  contents =
                    [\<lparr>role = js ''user'',
                      parts =
                        [text_part prompt,
                         text_part (js ''Transcript to analyze: \<newline>\<newline>'' @ sourceText cur)]\<rparr>]\<rparr>)
              sent"
    by (simp add: generate_request_def)
  with r(1,2,3) show "\<exists>cur' sent. currentAnalysis (run es s) = Some cur'
         \<and> sourceText cur' = sourceText cur
         \<and> requests (run es s) = requests s @ sent
         \<and> list_all
              (\<lambda>r. \<exists>prompt. r =
                 \<lparr>model = js ''gemini-2.5-pro'',
                  contents =
                    [\<lparr>role = js ''user'',
                      parts =
                        [text_part prompt,
                         text_part (js ''Transcript to analyze: \<newline>\<newline>'' @ sourceText cur)]\<rparr>]\<rparr>)
              sent"
    by blast
next
  assume a: "truthy (sourceText_form s) = Some lesson \<and> response env = Resolved t
      \<and> truthy t = Some html \<and> list_all keeps_record es"
  then have tx: "truthy (textToAnalyze_of s False None) = Some lesson"
    by (simp add: textToAnalyze_of_def)
  have "currentAnalysis (step (Generate env) s) = Some (new_entry s lesson html env)"
    using handleGenerate_created(2) [OF tx, of env t html s] a by simp
  from run_keeps_record [OF _ this, of es] a
  obtain cur' sent where
    r: "currentAnalysis (run es (step (Generate env) s)) = Some cur'" "sourceText cur' = lesson"
      "requests (run es (step (Generate env) s)) = requests (step (Generate env) s) @ sent"
      "list_all (\<lambda>r. \<exists>prompt. r = generate_request prompt lesson) sent"
    by (auto simp: new_entry_def)
  from r(4) have "list_all
              (\<lambda>r. \<exists>prompt. r =
                 \<lparr>model = js ''gemini-2.5-pro'',
                  contents =
                    [\<lparr>role = js ''user'',
                      parts =
                        [text_part prompt,
                         text_part (js ''Transcript to analyze: \<newline>\<newline>'' @ lesson)]\<rparr>]\<rparr>)
              sent"
    by (simp add: generate_request_def)
  with r(1,2,3) show "\<exists>cur' sent. currentAnalysis (run (Generate env # es) s) = Some cur'
         \<and> sourceText cur' = lesson
         \<and> requests (run (Generate env # es) s) = requests (step (Generate env) s) @ sent
         \<and> list_all
              (\<lambda>r. \<exists>prompt. r =
                 \<lparr>model = js ''gemini-2.5-pro'',
                  contents =
                    [\<lparr>role = js ''user'',
                      parts =
                        [text_part prompt,
                         text_part (js ''Transcript to analyze: \<newline>\<newline>'' @ lesson)]\<rparr>]\<rparr>)
              sent"
    unfolding run_Cons by blast
next
  assume a: "unique_ids s \<and> fresh_ids es s \<and> i < length (library s)"
  then have r: "length (library s) \<le> length (library (run es s))
    \<and> id' (library (run es s) ! (i + (length (library (run es s)) - length (library s))))
        = id' (library s ! i)
    \<and> sourceText (library (run es s) ! (i + (length (library (run es s)) - length (library s))))
        = sourceText (library s ! i)
    \<and> prefix (refinementHistory (library s ! i))
        (refinementHistory
           (library (run es s) ! (i + (length (library (run es s)) - length (library s)))))"
    using run_entries [of s es i] by blast
  from r show "length (library s) \<le> length (library (run es s))" by blast
  from r show "id' (library (run es s) ! (i + (length (library (run es s)) - length (library s))))
          = id' (library s ! i)" by blast
  from r show "sourceText
          (library (run es s) ! (i + (length (library (run es s)) - length (library s))))
          = sourceText (library s ! i)" by blast
qed

theorem refinement_reads_source_text_witness:
  "currentAnalysis typo_fixed = Some typo_fixed_record
   \<and> sourceText typo_fixed_record = js ''Sample lesson text''
   \<and> requests (handleGenerate typo_fixed True None add_table_env typo_fixed)
       = [\<lparr>model = js ''gemini-2.5-pro'',
           contents =
             [\<lparr>role = js ''user'',
               parts =
                 [text_part
                    (getSystemPrompt (js ''General Summary'') (js ''add a table'') Modern_Scholar
                       (js ''Refine the previous analysis based on the new directive'')),
                  text_part (js ''Transcript to analyze: \<newline>\<newline>Sample lesson text'')]\<rparr>]\<rparr>]
   \<and> (\<exists>cur'. currentAnalysis (handleGenerate typo_fixed True None add_table_env typo_fixed)
          = Some cur'
        \<and> sourceText cur' = js ''Sample lesson text''
        \<and> library (handleGenerate typo_fixed True None add_table_env typo_fixed) = [cur'])
   \<and> (\<exists>cur'. currentAnalysis
          (handleSaveChanges (Some (js ''<h1>Edited</h1>'')) False typo_fixed) = Some cur'
        \<and> sourceText cur' = js ''Sample lesson text''
        \<and> library (handleSaveChanges (Some (js ''<h1>Edited</h1>'')) False typo_fixed) = [cur'])
   \<and> list_all keeps_record edit_then_refine
   \<and> (\<exists>cur' sent. currentAnalysis (run edit_then_refine typo_fixed) = Some cur'
        \<and> sourceText cur' = js ''Sample lesson text''
        \<and> requests (run edit_then_refine typo_fixed) = sent
        \<and> list_all
             (\<lambda>r. \<exists>prompt. r =
                \<lparr>model = js ''gemini-2.5-pro'',
                 contents =
                   [\<lparr>role = js ''user'',
                     parts =
                       [text_part prompt,
                        text_part (js ''Transcript to analyze: \<newline>\<newline>Sample lesson text'')]\<rparr>]\<rparr>)
             sent)
   \<and> truthy (sourceText_form lesson_typed) = Some (js ''Sample lesson text'')
   \<and> (\<exists>cur'. currentAnalysis (run (Generate first_env # edit_then_refine) lesson_typed) = Some cur'
        \<and> sourceText cur' = js ''Sample lesson text'')
   \<and> unique_ids typo_fixed \<and> fresh_ids refine_then_create typo_fixed
   \<and> length (library typo_fixed) = 1
   \<and> length (library (run refine_then_create typo_fixed)) = 2
   \<and> sourceText (library (run refine_then_create typo_fixed) ! 1) = js ''Sample lesson text''"
proof -
  have h1: "currentAnalysis typo_fixed = Some typo_fixed_record \<and> sourceText typo_fixed_record \<noteq> []"
    by simp
  have h2: "currentAnalysis typo_fixed = Some typo_fixed_record
      \<and> sourceText typo_fixed_record \<noteq> []
      \<and> response add_table_env = Resolved (Some (js ''<h1>Two</h1>''))
      \<and> truthy (Some (js ''<h1>Two</h1>'')) = Some (js ''<h1>Two</h1>'')"
    by (simp add: truthy_def add_table_env_def)
  have h3: "currentAnalysis typo_fixed = Some typo_fixed_record" by simp
  have h4: "currentAnalysis typo_fixed = Some typo_fixed_record
      \<and> list_all keeps_record edit_then_refine"
    by (simp add: edit_then_refine_def)
  have h5: "truthy (sourceText_form lesson_typed) = Some (js ''Sample lesson text'')
      \<and> response first_env = Resolved (Some (js ''<h1>One</h1>''))
      \<and> truthy (Some (js ''<h1>One</h1>'')) = Some (js ''<h1>One</h1>'')
      \<and> list_all keeps_record edit_then_refine"
    by (simp add: truthy_def first_env_def edit_then_refine_def)
  have h6: "unique_ids typo_fixed \<and> fresh_ids refine_then_create typo_fixed
      \<and> 0 < length (library typo_fixed)"
    by (simp add: unique_ids_def coherent_def refine_then_create_def evaluation js_def)
  have len: "length (library (run refine_then_create typo_fixed)) = 2"
    by (simp add: refine_then_create_def evaluation)
  have forms: "analysisLens_form typo_fixed = js ''General Summary''"
    "visualTheme_form typo_fixed = Modern_Scholar" "requests typo_fixed = []"
    by (simp_all add: typo_fixed_def initial_app_def)
  have tx: "js ''Transcript to analyze: \<newline>\<newline>'' @ js ''Sample lesson text''
      = js ''Transcript to analyze: \<newline>\<newline>Sample lesson text''"
    by (simp add: js_def)
  note inst = refinement_reads_source_text [where c = typo_fixed and s = typo_fixed
      and cur = typo_fixed_record and env = add_table_env
      and t = "Some (js ''<h1>Two</h1>'')" and html = "js ''<h1>Two</h1>''"
      and edited = "js ''<h1>Edited</h1>''" and throws = False and i = 0]
  from inst [where es = edit_then_refine, THEN conjunct1, THEN mp, OF h1]
  have c1: "requests (handleGenerate typo_fixed True None add_table_env typo_fixed)
       = [\<lparr>model = js ''gemini-2.5-pro'',
           contents =
             [\<lparr>role = js ''user'',
               parts =
                 [text_part
                    (getSystemPrompt (js ''General Summary'') (js ''add a table'') Modern_Scholar
                       (js ''Refine the previous analysis based on the new directive'')),
                  text_part (js ''Transcript to analyze: \<newline>\<newline>Sample lesson text'')]\<rparr>]\<rparr>]"
    by (simp add: forms tx)
  from inst [where es = edit_then_refine, THEN conjunct2, THEN conjunct1, THEN mp, OF h2]
  have c2: "\<exists>cur'. currentAnalysis (handleGenerate typo_fixed True None add_table_env typo_fixed)
          = Some cur'
        \<and> sourceText cur' = js ''Sample lesson text''
        \<and> library (handleGenerate typo_fixed True None add_table_env typo_fixed) = [cur']"
    by auto
  from inst [where es = edit_then_refine, THEN conjunct2, THEN conjunct2, THEN conjunct1,
      THEN mp, OF h3]
  have c3: "\<exists>cur'. currentAnalysis
          (handleSaveChanges (Some (js ''<h1>Edited</h1>'')) False typo_fixed) = Some cur'
        \<and> sourceText cur' = js ''Sample lesson text''
        \<and> library (handleSaveChanges (Some (js ''<h1>Edited</h1>'')) False typo_fixed) = [cur']"
    by auto
  from inst [where es = edit_then_refine, THEN conjunct2, THEN conjunct2, THEN conjunct2,
      THEN conjunct1, THEN mp, OF h4]
  have c4: "\<exists>cur' sent. currentAnalysis (run edit_then_refine typo_fixed) = Some cur'
        \<and> sourceText cur' = js ''Sample lesson text''
        \<and> requests (run edit_then_refine typo_fixed) = sent
        \<and> list_all
             (\<lambda>r. \<exists>prompt. r =
                \<lparr>model = js ''gemini-2.5-pro'',
                 contents =
                   [\<lparr>role = js ''user'',
                     parts =
                       [text_part prompt,
                        text_part (js ''Transcript to analyze: \<newline>\<newline>Sample lesson text'')]\<rparr>]\<rparr>)
             sent"
    by (simp add: forms tx)
  from refinement_reads_source_text [where s = lesson_typed
      and lesson = "js ''Sample lesson text''" and env = first_env
      and t = "Some (js ''<h1>One</h1>'')" and html = "js ''<h1>One</h1>''"
      and es = edit_then_refine,
      THEN conjunct2, THEN conjunct2, THEN conjunct2, THEN conjunct2, THEN conjunct1,
      THEN mp, OF h5]
  have c5: "\<exists>cur'. currentAnalysis (run (Generate first_env # edit_then_refine) lesson_typed)
          = Some cur'
        \<and> sourceText cur' = js ''Sample lesson text''"
    by blast
  from inst [where es = refine_then_create, THEN conjunct2, THEN conjunct2, THEN conjunct2,
      THEN conjunct2, THEN conjunct2, THEN mp, OF h6] len
  have c6: "sourceText (library (run refine_then_create typo_fixed) ! 1) = js ''Sample lesson text''"
    by simp
  show ?thesis
    using h4 h5 h6 len c1 c2 c3 c4 c5 c6 by simp
qed

text \<open>
  C2. The claim as stated fails in two ways. In \<open>same_stamp_twice\<close> the entry with
  the history \<open>fix typo\<close> shares its id with the record on the screen, and a saved
  edit of that record overwrites it: its history is empty afterwards. And of two
  refinements that overlap, the one answered last starts from the history of the render it
  was submitted in: the directive \<open>fix typo\<close>, in the library after the first answer,
  is gone after the second.
\<close>

theorem history_lost_counterexample:
  "map refinementHistory (library same_stamp_twice) = [[], [js ''fix typo'']]
   \<and> map refinementHistory
        (library (step (SaveChanges (Some (js ''<h1>Two!</h1>'')) False) same_stamp_twice))
       = [[], []]
   \<and> map refinementHistory (library first_answered) = [[js ''fix typo'']]
   \<and> map refinementHistory (library second_answered) = [[js ''add a table'']]"
  by (simp add: same_stamp_twice_def lesson_typed_def initial_app_def handleGenerate_def
      Let_def textToAnalyze_of_def truthy_def generate_finally_def startNewAnalysis_def
      replace_by_id_def refined_entry_def new_entry_def handleSaveChanges_def
      second_answered_def first_answered_def both_submitted_def first_submitted_def
      refine_typed_def handleGenerate_start_def handleGenerate_resume_def)

text \<open>
  C2, amended. A refinement that succeeds puts on the screen the record with the
  directive of its render appended to the \<open>refinementHistory\<close> of its render, and
  puts it into the library in the place of every entry with its id. With the operations
  run one after the other, the history of the record on the screen only grows at its end;
  and while no two records share an id, every library entry is found again in its order,
  further down by the number of records created, with the same id and with a history
  that starts with the history it had: nothing is removed, truncated or reordered.
\<close>

theorem refinement_history_grows:
  "(currentAnalysis c = Some cur \<and> sourceText cur \<noteq> [] \<and> response env = Resolved t
      \<and> truthy t = Some html \<longrightarrow>
      (\<exists>cur'. currentAnalysis (handleGenerate c True None env s) = Some cur'
         \<and> refinementHistory cur' = refinementHistory cur @ [refineDirectives c]
         \<and> id' cur' = id' cur
         \<and> library (handleGenerate c True None env s)
             = map (\<lambda>item. if id' item = id' cur then cur' else item) (library c)))
   \<and> (currentAnalysis s = Some cur \<and> list_all keeps_record es \<longrightarrow>
      (\<exists>cur'. currentAnalysis (run es s) = Some cur' \<and> id' cur' = id' cur
         \<and> prefix (refinementHistory cur) (refinementHistory cur')))
   \<and> (unique_ids s \<and> fresh_ids es s \<and> i < length (library s) \<longrightarrow>
      length (library s) \<le> length (library (run es s))
      \<and> id' (library (run es s) ! (i + (length (library (run es s)) - length (library s))))
          = id' (library s ! i)
      \<and> prefix (refinementHistory (library s ! i))
          (refinementHistory
             (library (run es s) ! (i + (length (library (run es s)) - length (library s))))))"
proof (intro conjI impI)
  assume "currentAnalysis c = Some cur \<and> sourceText cur \<noteq> [] \<and> response env = Resolved t
      \<and> truthy t = Some html"
  then show "\<exists>cur'. currentAnalysis (handleGenerate c True None env s) = Some cur'
         \<and> refinementHistory cur' = refinementHistory cur @ [refineDirectives c]
         \<and> id' cur' = id' cur
         \<and> library (handleGenerate c True None env s)
             = map (\<lambda>item. if id' item = id' cur then cur' else item) (library c)"
    using handleGenerate_refined(1) [of c cur env t html s]
      handleGenerate_refined(2) [of c cur env t html s]
    by (simp add: replace_by_id_def refined_entry_def)
next
  assume "currentAnalysis s = Some cur \<and> list_all keeps_record es"
  then show "\<exists>cur'. currentAnalysis (run es s) = Some cur' \<and> id' cur' = id' cur
         \<and> prefix (refinementHistory cur) (refinementHistory cur')"
    using run_keeps_record [of es s cur] by auto
next
  assume a: "unique_ids s \<and> fresh_ids es s \<and> i < length (library s)"
  then have r: "length (library s) \<le> length (library (run es s))
    \<and> id' (library (run es s) ! (i + (length (library (run es s)) - length (library s))))
        = id' (library s ! i)
    \<and> sourceText (library (run es s) ! (i + (length (library (run es s)) - length (library s))))
        = sourceText (library s ! i)
    \<and> prefix (refinementHistory (library s ! i))
        (refinementHistory
           (library (run es s) ! (i + (length (library (run es s)) - length (library s)))))"
    using run_entries [of s es i] by blast
  from r show "length (library s) \<le> length (library (run es s))" by blast
  from r show "id' (library (run es s) ! (i + (length (library (run es s)) - length (library s))))
          = id' (library s ! i)" by blast
  from r show "prefix (refinementHistory (library s ! i))
          (refinementHistory
             (library (run es s) ! (i + (length (library (run es s)) - length (library s)))))"
    by blast
qed

theorem refinement_history_grows_witness:
  "currentAnalysis typo_fixed = Some typo_fixed_record
   \<and> refinementHistory typo_fixed_record = [js ''fix typo'']
   \<and> refineDirectives typo_fixed = js ''add a table''
   \<and> sourceText typo_fixed_record \<noteq> []
   \<and> (\<exists>cur'. currentAnalysis (handleGenerate typo_fixed True None add_table_env typo_fixed)
          = Some cur'
        \<and> refinementHistory cur' = [js ''fix typo'', js ''add a table'']
        \<and> library (handleGenerate typo_fixed True None add_table_env typo_fixed) = [cur'])
   \<and> list_all keeps_record edit_then_refine
   \<and> (\<exists>cur'. currentAnalysis (run edit_then_refine typo_fixed) = Some cur'
        \<and> prefix [js ''fix typo''] (refinementHistory cur'))
   \<and> unique_ids typo_fixed \<and> fresh_ids refine_then_create typo_fixed
   \<and> length (library typo_fixed) = 1
   \<and> length (library (run refine_then_create typo_fixed)) = 2
   \<and> id' (library (run refine_then_create typo_fixed) ! 1) = id' typo_fixed_record
   \<and> prefix [js ''fix typo'']
        (refinementHistory (library (run refine_then_create typo_fixed) ! 1))"
proof -
  have h1: "currentAnalysis typo_fixed = Some typo_fixed_record
      \<and> sourceText typo_fixed_record \<noteq> []
      \<and> response add_table_env = Resolved (Some (js ''<h1>Two</h1>''))
      \<and> truthy (Some (js ''<h1>Two</h1>'')) = Some (js ''<h1>Two</h1>'')"
    by (simp add: truthy_def add_table_env_def)
  have h2: "currentAnalysis typo_fixed = Some typo_fixed_record
      \<and> list_all keeps_record edit_then_refine"
    by (simp add: edit_then_refine_def)
  have h3: "unique_ids typo_fixed \<and> fresh_ids refine_then_create typo_fixed
      \<and> 0 < length (library typo_fixed)"
    by (simp add: unique_ids_def coherent_def refine_then_create_def evaluation js_def)
  have len: "length (library (run refine_then_create typo_fixed)) = 2"
    by (simp add: refine_then_create_def evaluation)
  note inst = refinement_history_grows [where c = typo_fixed and s = typo_fixed
      and cur = typo_fixed_record and env = add_table_env
      and t = "Some (js ''<h1>Two</h1>'')" and html = "js ''<h1>Two</h1>''" and i = 0]
  from inst [where es = edit_then_refine, THEN conjunct1, THEN mp, OF h1]
  have c1: "\<exists>cur'. currentAnalysis (handleGenerate typo_fixed True None add_table_env typo_fixed)
          = Some cur'
        \<and> refinementHistory cur' = [js ''fix typo'', js ''add a table'']
        \<and> library (handleGenerate typo_fixed True None add_table_env typo_fixed) = [cur']"
    by auto
  from inst [where es = edit_then_refine, THEN conjunct2, THEN conjunct1, THEN mp, OF h2]
  have c2: "\<exists>cur'. currentAnalysis (run edit_then_refine typo_fixed) = Some cur'
        \<and> prefix [js ''fix typo''] (refinementHistory cur')"
    by auto
  from inst [where es = refine_then_create, THEN conjunct2, THEN conjunct2, THEN mp, OF h3] len
  have c3: "id' (library (run refine_then_create typo_fixed) ! 1) = id' typo_fixed_record
      \<and> prefix [js ''fix typo'']
          (refinementHistory (library (run refine_then_create typo_fixed) ! 1))"
    by simp
  show ?thesis
    using h1 h2 h3 len c1 c2 c3 by simp
qed

text \<open>The fields of the two object literals.\<close>

lemma new_entry_fields [simp]:
  "id' (new_entry c lesson html env) = now_id env"
  "createdAt (new_entry c lesson html env) = now_createdAt env"
  "sourceText (new_entry c lesson html env) = lesson"
  "refinementHistory (new_entry c lesson html env) = []"
  "infographicHtml (new_entry c lesson html env) = html"
  "title (new_entry c lesson html env) = extract_title html"
  by (simp_all add: new_entry_def)

text \<open>
  C10. A record's id is the value of the first \<open>new Date().toISOString()\<close> of its
  creation and \<open>createdAt\<close> that of the second; nothing compares the id with those
  in the library. Two records created at the same reading of the clock are both in the
  library with equal ids. The replace-by-id step of a refinement and of a saved edit puts
  the new record in the place of every library entry that has the current record's id.
\<close>

theorem ids_are_time_stamps:
  "(truthy (sourceText_form s) = Some lesson \<and> response env = Resolved t
      \<and> truthy t = Some html \<longrightarrow>
      (\<exists>e. library (step (Generate env) s) = e # library s
         \<and> id' e = now_id env \<and> createdAt e = now_createdAt env))
   \<and> (truthy (sourceText_form s) = Some lesson
      \<and> response env1 = Resolved (Some h1) \<and> h1 \<noteq> []
      \<and> response env2 = Resolved (Some h2) \<and> h2 \<noteq> []
      \<and> now_id env1 = now_id env2 \<longrightarrow>
      (\<exists>e1 e2. library (run [Generate env1, Generate env2] s) = e2 # e1 # library s
         \<and> id' e1 = id' e2))
   \<and> (currentAnalysis s = Some cur \<and> sourceText cur \<noteq> [] \<and> response env = Resolved t
      \<and> truthy t = Some html \<longrightarrow>
      library (step (SubmitRefine env) s)
        = map (\<lambda>item. if id' item = id' cur
                       then refined_entry cur html (refineDirectives s) else item)
            (library s))
   \<and> (currentAnalysis s = Some cur \<longrightarrow>
      library (step (SaveChanges (Some edited) throws) s)
        = map (\<lambda>item. if id' item = id' cur then cur\<lparr>infographicHtml := edited\<rparr> else item)
            (library s))"
proof (intro conjI impI)
  assume a: "truthy (sourceText_form s) = Some lesson \<and> response env = Resolved t
      \<and> truthy t = Some html"
  then have tx: "truthy (textToAnalyze_of s False None) = Some lesson"
    by (simp add: textToAnalyze_of_def)
  from handleGenerate_created(1) [OF tx, of env t html s] a
  show "\<exists>e. library (step (Generate env) s) = e # library s
         \<and> id' e = now_id env \<and> createdAt e = now_createdAt env"
    by simp
next
  assume a: "truthy (sourceText_form s) = Some lesson
      \<and> response env1 = Resolved (Some h1) \<and> h1 \<noteq> []
      \<and> response env2 = Resolved (Some h2) \<and> h2 \<noteq> []
      \<and> now_id env1 = now_id env2"
  then have "library (run (map Generate [env1, env2]) s)
      = rev (map2 (new_entry s lesson) [h1, h2] [env1, env2]) @ library s"
    by (intro generations_stack) auto
  then show "\<exists>e1 e2. library (run [Generate env1, Generate env2] s) = e2 # e1 # library s
         \<and> id' e1 = id' e2"
    using a by simp
next
  assume "currentAnalysis s = Some cur \<and> sourceText cur \<noteq> [] \<and> response env = Resolved t
      \<and> truthy t = Some html"
  then show "library (step (SubmitRefine env) s)
        = map (\<lambda>item. if id' item = id' cur
                       then refined_entry cur html (refineDirectives s) else item)
            (library s)"
    using handleGenerate_refined(1) [of s cur env t html s] by (simp add: replace_by_id_def)
next
  assume "currentAnalysis s = Some cur"
  then show "library (step (SaveChanges (Some edited) throws) s)
        = map (\<lambda>item. if id' item = id' cur then cur\<lparr>infographicHtml := edited\<rparr> else item)
            (library s)"
    by (simp add: handleSaveChanges_def Let_def replace_by_id_def)
qed

theorem ids_are_time_stamps_witness:
  "truthy (sourceText_form lesson_typed) = Some (js ''Sample lesson text'')
   \<and> (\<exists>e1 e2.
        library
          (run [Generate (env_of (Resolved (Some (js ''<h1>One</h1>''))) (js ''2025-01-01T10:00:00.000Z'')),
                Generate (env_of (Resolved (Some (js ''<h1>Two</h1>''))) (js ''2025-01-01T10:00:00.000Z''))]
             lesson_typed) = [e2, e1]
        \<and> id' e1 = id' e2)
   \<and> map infographicHtml
        (library
          (run [Generate (env_of (Resolved (Some (js ''<h1>One</h1>''))) (js ''2025-01-01T10:00:00.000Z'')),
                Generate (env_of (Resolved (Some (js ''<h1>Two</h1>''))) (js ''2025-01-01T10:00:00.000Z'')),
                SubmitRefine (env_of (Resolved (Some (js ''<h1>Three</h1>''))) (js ''2025-01-03T10:00:00.000Z''))]
             lesson_typed))
      = [js ''<h1>Three</h1>'', js ''<h1>Three</h1>'']"
proof -
  let ?A = "env_of (Resolved (Some (js ''<h1>One</h1>''))) (js ''2025-01-01T10:00:00.000Z'')"
  let ?B = "env_of (Resolved (Some (js ''<h1>Two</h1>''))) (js ''2025-01-01T10:00:00.000Z'')"
  let ?C = "env_of (Resolved (Some (js ''<h1>Three</h1>''))) (js ''2025-01-03T10:00:00.000Z'')"
  let ?s1 = "step (Generate ?A) lesson_typed"
  let ?s2 = "run [Generate ?A, Generate ?B] lesson_typed"
  have lesson: "truthy (sourceText_form lesson_typed) = Some (js ''Sample lesson text'')"
    by (simp add: truthy_def)
  have two: "\<exists>e1 e2. library ?s2 = [e2, e1] \<and> id' e1 = id' e2"
    using ids_are_time_stamps [where s = lesson_typed and lesson = "js ''Sample lesson text''"
        and ?env1.0 = ?A and ?env2.0 = ?B and ?h1.0 = "js ''<h1>One</h1>''"
        and ?h2.0 = "js ''<h1>Two</h1>''", THEN conjunct2, THEN conjunct1] lesson
    by simp
  have tx1: "truthy (textToAnalyze_of lesson_typed False None) = Some (js ''Sample lesson text'')"
    by (simp add: textToAnalyze_of_def truthy_def)
  have form1: "sourceText_form ?s1 = Some (js ''Sample lesson text'')"
    using handleGenerate_sent(3) [OF tx1, of ?A lesson_typed] by simp
  have lib1: "library ?s1
      = [new_entry lesson_typed (js ''Sample lesson text'') (js ''<h1>One</h1>'') ?A]"
    using handleGenerate_created(1) [OF tx1, of ?A "Some (js ''<h1>One</h1>'')"
        "js ''<h1>One</h1>''" lesson_typed]
    by (simp add: truthy_def)
  have tx2: "truthy (textToAnalyze_of ?s1 False None) = Some (js ''Sample lesson text'')"
    using form1 by (simp add: textToAnalyze_of_def truthy_def)
  have cur2: "currentAnalysis ?s2
      = Some (new_entry ?s1 (js ''Sample lesson text'') (js ''<h1>Two</h1>'') ?B)"
    using handleGenerate_created(2) [OF tx2, of ?B "Some (js ''<h1>Two</h1>'')"
        "js ''<h1>Two</h1>''" ?s1]
    by (simp add: truthy_def)
  have lib2: "library ?s2
      = [new_entry ?s1 (js ''Sample lesson text'') (js ''<h1>Two</h1>'') ?B,
         new_entry lesson_typed (js ''Sample lesson text'') (js ''<h1>One</h1>'') ?A]"
    using handleGenerate_created(1) [OF tx2, of ?B "Some (js ''<h1>Two</h1>'')"
        "js ''<h1>Two</h1>''" ?s1] lib1
    by (simp add: truthy_def)
  have "library (step (SubmitRefine ?C) ?s2)
      = map (\<lambda>item. if id' item
               = id' (new_entry ?s1 (js ''Sample lesson text'') (js ''<h1>Two</h1>'') ?B)
             then refined_entry
                    (new_entry ?s1 (js ''Sample lesson text'') (js ''<h1>Two</h1>'') ?B)
                    (js ''<h1>Three</h1>'') (refineDirectives ?s2)
             else item) (library ?s2)"
    using ids_are_time_stamps [where s = ?s2
        and cur = "new_entry ?s1 (js ''Sample lesson text'') (js ''<h1>Two</h1>'') ?B"
        and env = ?C and t = "Some (js ''<h1>Three</h1>'')" and html = "js ''<h1>Three</h1>''",
        THEN conjunct2, THEN conjunct2, THEN conjunct1] cur2
    by (simp add: truthy_def)
  then have "map infographicHtml (library (step (SubmitRefine ?C) ?s2))
      = [js ''<h1>Three</h1>'', js ''<h1>Three</h1>'']"
    by (simp only: lib2 list.map new_entry_fields env_of_simps if_True refined_entry_fields
        simp_thms)
  then show ?thesis using lesson two by simp
qed

text \<open>
  C9. The claim as stated fails for a title with a character other than a space that
  is not safe in a file name: the slash and the colon of the title are in the name of
  the file.
\<close>

theorem download_name_unsafe_counterexample:
  "downloads (handleDownloadHtml slash_titled)
     = [(js ''Shabbat_31a/b:_Hillel.html'', js ''<h1>One</h1>'')]
   \<and> \<not> list_all filename_safe (fst (hd (downloads (handleDownloadHtml slash_titled))))"
  by (simp add: handleDownloadHtml_def slash_titled_def typo_fixed_record_def initial_app_def
      replace_spaces_def js_def filename_safe_def)

text \<open>
  C9, amended. The download is one file whose content is the current record's
  \<open>infographicHtml\<close> and whose name is the title with every space replaced by an
  underscore and every other character kept, followed by \<open>.html\<close>.
\<close>

theorem download_file:
  "currentAnalysis s = Some cur \<longrightarrow>
     (\<exists>name. downloads (handleDownloadHtml s) = downloads s @ [(name @ js ''.html'', infographicHtml cur)]
        \<and> name = replace_spaces (title cur)
        \<and> length name = length (title cur)
        \<and> 0x20 \<notin> set name
        \<and> (\<forall>i < length name.
              name ! i = (if title cur ! i = 0x20 then 0x5F else title cur ! i)))"
  by (auto simp: handleDownloadHtml_def replace_spaces_def)

theorem download_file_witness:
  "currentAnalysis slash_titled = Some (typo_fixed_record\<lparr>title := js ''Shabbat 31a/b: Hillel''\<rparr>)
   \<and> (\<exists>name. downloads (handleDownloadHtml slash_titled)
         = downloads slash_titled @ [(name @ js ''.html'', js ''<h1>One</h1>'')]
        \<and> name = js ''Shabbat_31a/b:_Hillel'')"
  using download_file [of slash_titled "typo_fixed_record\<lparr>title := js ''Shabbat 31a/b: Hillel''\<rparr>"]
  by (simp add: slash_titled_def typo_fixed_record_def initial_app_def replace_spaces_def js_def)

text \<open>The effect catches what its \<open>try\<close> block throws.\<close>

lemma loadLibrary_effect_caught: "loadLibrary_effect denied s \<noteq> Uncaught e"
  by (simp add: loadLibrary_effect_def split: effect_result.splits)

text \<open>
  C7. No exception leaves the effect that loads the library, whatever the storage
  holds. When the slot is empty (\<open>null\<close>, or the empty string) or its content is not
  JSON, the effect returns with the library empty, nothing shown to the user and the
  storage as it was.
\<close>

theorem load_falls_back_to_empty:
  "(\<forall>e. loadLibrary_effect denied s \<noteq> Uncaught e)
   \<and> (stored = None \<or> stored = Some [] \<or> (\<exists>saved. stored = Some saved \<and> JSON_parse saved = None)
      \<longrightarrow>
      (\<exists>s'. loadLibrary_effect denied (initial_app stored) = Returned s'
         \<and> library s' = [] \<and> alerts s' = [] \<and> storage s' = stored))"
proof (intro conjI allI impI)
  fix e
  show "loadLibrary_effect denied s \<noteq> Uncaught e"
    by (rule loadLibrary_effect_caught)
next
  assume "stored = None \<or> stored = Some []
      \<or> (\<exists>saved. stored = Some saved \<and> JSON_parse saved = None)"
  then show "\<exists>s'. loadLibrary_effect denied (initial_app stored) = Returned s'
         \<and> library s' = [] \<and> alerts s' = [] \<and> storage s' = stored"
    by (auto simp: loadLibrary_effect_def loadLibrary_try_def initial_app_def)
qed

theorem load_falls_back_to_empty_witness:
  "JSON_parse (js ''{oops'') = None
   \<and> (\<exists>s'. loadLibrary_effect False (initial_app (Some (js ''{oops''))) = Returned s'
        \<and> library s' = [] \<and> alerts s' = [] \<and> storage s' = Some (js ''{oops''))
   \<and> (\<exists>s'. loadLibrary_effect False (initial_app None) = Returned s'
        \<and> library s' = [] \<and> alerts s' = [] \<and> storage s' = None)"
proof -
  have p: "JSON_parse (js ''{oops'') = None"
    by (simp add: JSON_parse_def skip_ws_def is_ws_def js_def parse_members.simps)
  show ?thesis
    using p
      load_falls_back_to_empty [of False "initial_app None" "Some (js ''{oops'')"]
      load_falls_back_to_empty [of False "initial_app None" None]
    by simp
qed


text \<open>
  C8. The code at an HTML document whose first heading runs over two lines: \<open>.\<close>
  does not match the line feed, so the pattern does not match and the title is the
  fallback, with an \<open>h1\<close> tag present.
\<close>

theorem multi_line_heading_untitled:
  "extract_title (js ''<h1>Lesson'' @ [0x0A] @ js ''One</h1>'') = js ''Untitled Analysis''"
  by (simp add: extract_title_def title_pattern_def js_def Canonicalize_def
      is_line_terminator_def)

text \<open>
  A heading on one line gives the title, whatever the case of the tag and its
  attributes; and when the first heading runs over two lines the title is taken from the
  next one.
\<close>

lemma one_line_heading_title:
  "extract_title (js ''<html><H1 contenteditable=true>Lesson One</h1><h1>x</h1>'') = js ''Lesson One''"
  by (simp add: extract_title_def title_pattern_def js_def Canonicalize_def
      is_line_terminator_def)

lemma second_heading_title:
  "extract_title (js ''<h1>Lesson'' @ [0x0A] @ js ''One</h1><h1>Two</h1>'') = js ''Two''"
  by (simp add: extract_title_def title_pattern_def js_def Canonicalize_def
      is_line_terminator_def)

text \<open>
  The pattern in general. Under the \<open>i\<close> flag no other code unit canonicalizes to
  \<open><\<close> or \<open>>\<close>, so a match can only start at a \<open><\<close>, the attributes run to
  the first \<open>>\<close>, and the lazy group stops at the first \<open><\<close> of the content. Hence a
  heading that is the first tag of the document and whose content is on one line and has
  no markup of its own gives its content as the title, and a document with no tag at all
  gives the fallback.
\<close>

lemma Canonicalize_eq_3C: "Canonicalize c = 0x3C \<longleftrightarrow> c = 0x3C"
proof
  assume h: "Canonicalize c = 0x3C"
  show "c = 0x3C"
  proof (cases "0x61 \<le> c \<and> c \<le> 0x7A")
    case True
    then have "c - 0x20 = 0x3C" using h by (simp add: Canonicalize_def)
    then have "c = 0x3C + 0x20" by (metis diff_add_cancel)
    then show ?thesis using True by simp
  next
    case False
    then show ?thesis using h by (auto simp add: Canonicalize_def)
  qed
next
  assume "c = 0x3C" then show "Canonicalize c = 0x3C" by (simp add: Canonicalize_def)
qed

lemma Canonicalize_eq_3E: "Canonicalize c = 0x3E \<longleftrightarrow> c = 0x3E"
proof
  assume h: "Canonicalize c = 0x3E"
  show "c = 0x3E"
  proof (cases "0x61 \<le> c \<and> c \<le> 0x7A")
    case True
    then have "c - 0x20 = 0x3E" using h by (simp add: Canonicalize_def)
    then have "c = 0x3E + 0x20" by (metis diff_add_cancel)
    then show ?thesis using True by simp
  next
    case False
    then show ?thesis using h by (auto simp add: Canonicalize_def)
  qed
next
  assume "c = 0x3E" then show "Canonicalize c = 0x3E" by (simp add: Canonicalize_def)
qed

lemma Canonicalize_ascii [simp]:
  "Canonicalize 0x3C = 0x3C" "Canonicalize 0x3E = 0x3E" "Canonicalize 0x2F = 0x2F"
  "Canonicalize 0x31 = 0x31" "Canonicalize 0x68 = 0x48"
  by (simp_all add: Canonicalize_def)

lemma title_pattern_no_start:
  "c \<noteq> 0x3C \<Longrightarrow> match_items title_pattern (c # cs) cap = None"
  by (simp add: title_pattern_def Canonicalize_eq_3C)

lemma regex_exec_skip:
  "0x3C \<notin> set pre \<Longrightarrow> regex_exec title_pattern (pre @ s) = regex_exec title_pattern s"
  by (induction pre) (simp_all add: title_pattern_no_start)

lemma regex_exec_no_tag:
  "0x3C \<notin> set s \<Longrightarrow> regex_exec title_pattern s = None"
  by (induction s) (simp_all add: title_pattern_no_start, simp add: title_pattern_def)

lemma greedy_attributes:
  assumes "0x3E \<notin> set attrs" and "match_items r rest (False, g) = Some t"
  shows "match_items (Greedy (NotLit 0x3E) # One (Lit 0x3E) # r) (attrs @ 0x3E # rest) (False, g)
         = Some t"
  using assms by (induction attrs) (auto simp add: Canonicalize_eq_3E)

lemma lazy_content:
  assumes "0x3C \<notin> set inner" and "\<forall>c\<in>set inner. \<not> is_line_terminator c"
  shows "match_items
           [Lazy Dot, GroupClose,
            One (Lit 0x3C), One (Lit 0x2F), One (Lit 0x68), One (Lit 0x31), One (Lit 0x3E)]
           (inner @ js ''</h1>'' @ post) (True, acc)
         = Some (acc @ inner)"
  using assms
proof (induction inner arbitrary: acc)
  case Nil
  then show ?case by (simp add: js_def)
next
  case (Cons c inner)
  then show ?case by (simp add: Canonicalize_eq_3C)
qed

lemma one_line_heading:
  assumes "0x3C \<notin> set pre" and "0x3E \<notin> set attrs"
    and "0x3C \<notin> set inner" and "\<forall>c\<in>set inner. \<not> is_line_terminator c"
  shows "extract_title (pre @ js ''<h1'' @ attrs @ js ''>'' @ inner @ js ''</h1>'' @ post)
         = inner"
proof -
  let ?rest = "inner @ js ''</h1>'' @ post"
  have a: "match_items
           [GroupOpen, Lazy Dot, GroupClose,
            One (Lit 0x3C), One (Lit 0x2F), One (Lit 0x68), One (Lit 0x31), One (Lit 0x3E)]
           ?rest (False, []) = Some inner"
    using lazy_content [OF assms(3,4), of post "[]"] by simp
  have b: "match_items title_pattern (js ''<h1'' @ attrs @ js ''>'' @ ?rest) (False, [])
           = Some inner"
    using greedy_attributes [OF assms(2) a]
    by (simp add: title_pattern_def js_def)
  have "regex_exec title_pattern (js ''<h1'' @ attrs @ js ''>'' @ ?rest) = Some inner"
    using b by (simp add: js_def)
  then show ?thesis
    using regex_exec_skip [OF assms(1), of "js ''<h1'' @ attrs @ js ''>'' @ ?rest"]
    by (simp add: extract_title_def)
qed

lemma no_tag_untitled:
  "0x3C \<notin> set htmlOutput \<Longrightarrow> extract_title htmlOutput = js ''Untitled Analysis''"
  by (simp add: extract_title_def regex_exec_no_tag)

text \<open>
  C6. The claim as stated fails when \<open>localStorage.setItem\<close> throws, as it does
  when the serialized library is larger than the storage quota: \<open>saveLibrary\<close> logs
  the error, the slot keeps what it held, and the next start loads that.
\<close>

theorem failed_save_counterexample:
  "library (saveLibrary True [typo_fixed_record] (initial_app None)) = [typo_fixed_record]
   \<and> loadLibrary_effect False
        (initial_app (storage (saveLibrary True [typo_fixed_record] (initial_app None))))
       = Returned (initial_app None)
   \<and> library (initial_app None) = []"
  by (simp add: loadLibrary_effect_def loadLibrary_try_def initial_app_def)

text \<open>
  C6, amended. When the write to storage succeeds and the slot can be read at the next
  start, the library loaded there is the list of records that was saved: the same
  records in the same order, every field as it was.
\<close>

theorem save_then_load:
  "storage (saveLibrary False records s) = Some (JSON_stringify (library_json records))
   \<and> loadLibrary_effect False (initial_app (storage (saveLibrary False records s)))
       = Returned
           ((initial_app (Some (JSON_stringify (library_json records))))\<lparr>library := records\<rparr>)"
  by (simp add: loadLibrary_effect_def loadLibrary_try_def JSON_parse_stringify
      plain_library_json library_round_trip stringify_library_not_empty initial_app_def)

theorem save_then_load_witness:
  "library (saveLibrary False [typo_fixed_record] (initial_app None)) = [typo_fixed_record]
   \<and> (\<exists>s'. loadLibrary_effect False
          (initial_app (storage (saveLibrary False [typo_fixed_record] (initial_app None))))
         = Returned s'
        \<and> library s' = [typo_fixed_record])"
  using save_then_load [of "[typo_fixed_record]" "initial_app None"]
  by simp

end
